theory Spec2Isabelle
  imports Complex_Main
begin

section \<open>Plateau filter of NoiseShaper: worklet, fallback path and FFT module\<close>

text \<open>
  The development embeds three source files:
  \<^item> the audio worklet (\<^verbatim>\<open>src/unnamed/part_000\<close>): class \<^verbatim>\<open>Complex\<close>, \<^verbatim>\<open>fft\<close>,
    \<^verbatim>\<open>ifft\<close> and class \<^verbatim>\<open>PlateauProcessor\<close>;
  \<^item> the main-thread filter (\<^verbatim>\<open>src/webbeta/js/audio/filters/plateau.js\<close>): class
    \<^verbatim>\<open>PlateauFilter\<close> with its script-processor fallback;
  \<^item> the FFT module (\<^verbatim>\<open>src/webbeta2/ftt.js\<close>), whose \<^verbatim>\<open>Complex\<close>, \<^verbatim>\<open>fft\<close> and \<^verbatim>\<open>ifft\<close>
    are textually the same as the worklet's.

  JavaScript numbers are modelled as exact reals: rounding (also the rounding of a store
  into a \<^verbatim>\<open>Float32Array\<close>), \<^verbatim>\<open>NaN\<close> and the infinities are outside this model. The one
  exception is the subsection on double precision, which embeds \<^verbatim>\<open>fft\<close> and \<^verbatim>\<open>ifft\<close> a
  second time, with the rounding of every operation. Arrays are
  lists. A store \<^verbatim>\<open>a[i] = v\<close> into a typed array is \<open>a[i := v]\<close>: both ignore an index
  beyond the length. A read beyond the length gives \<^verbatim>\<open>undefined\<close> in the source; the
  theorems below state the length conditions under which every read is in range.
  An exception of the source is the left injection of a sum type.
\<close>

datatype error = TypeError | RangeError

subsection \<open>Loops\<close>

text \<open>\<^verbatim>\<open>for (let i = a; i < b; i++) body\<close>, the loop state passed through the body;
  \<open>for_upto\<close> is the loop from 0.\<close>

definition for_range :: "nat \<Rightarrow> nat \<Rightarrow> (nat \<Rightarrow> 's \<Rightarrow> 's) \<Rightarrow> 's \<Rightarrow> 's" where
  "for_range a b body s = fold body [a..<b] s"

definition for_upto :: "nat \<Rightarrow> (nat \<Rightarrow> 's \<Rightarrow> 's) \<Rightarrow> 's \<Rightarrow> 's" where
  "for_upto n body s = for_range 0 n body s"

subsection \<open>Class Complex\<close>

text \<open>An instance of \<^verbatim>\<open>Complex\<close> is a pair of fields \<^verbatim>\<open>real\<close>, \<^verbatim>\<open>imag\<close>: the type
  \<^typ>\<open>complex\<close> with its constructor \<^const>\<open>Complex\<close> and selectors \<^const>\<open>Re\<close>, \<^const>\<open>Im\<close>.
  The methods are written out as in the source.\<close>

definition conjugate :: "complex \<Rightarrow> complex" where
  "conjugate this = Complex (Re this) (- Im this)"

definition multiply :: "complex \<Rightarrow> complex \<Rightarrow> complex" where
  "multiply this other =
     (let real = Re this * Re other - Im this * Im other;
          imag = Re this * Im other + Im this * Re other
      in Complex real imag)"

definition add :: "complex \<Rightarrow> complex \<Rightarrow> complex" where
  "add this other = Complex (Re this + Re other) (Im this + Im other)"

definition subtract :: "complex \<Rightarrow> complex \<Rightarrow> complex" where
  "subtract this other = Complex (Re this - Re other) (Im this - Im other)"

definition scale :: "complex \<Rightarrow> real \<Rightarrow> complex" where
  "scale this factor = Complex (Re this * factor) (Im this * factor)"

definition abs_complex :: "complex \<Rightarrow> real" where
  "abs_complex this = sqrt (Re this * Re this + Im this * Im this)"

definition fromPolar :: "real \<Rightarrow> real \<Rightarrow> complex" where
  "fromPolar r theta = Complex (r * cos theta) (r * sin theta)"

subsection \<open>fft and ifft\<close>

text \<open>
  \<^verbatim>\<open>new Array(N / 2)\<close> raises \<^verbatim>\<open>RangeError\<close> when \<^verbatim>\<open>N / 2\<close> is not an integer, that is
  for an odd \<^verbatim>\<open>N\<close> above 1. The combination loop stores \<^verbatim>\<open>result[k]\<close> and
  \<^verbatim>\<open>result[k + N/2]\<close> for every \<^verbatim>\<open>k < N/2\<close>, each index once: the array it builds is the
  first halves followed by the second halves. Here the two functions compute over the
  exact complex numbers; the next subsection gives them with the rounding of the source.
\<close>

function fft :: "complex list \<Rightarrow> error + complex list" where
  "fft x =
     (if length x \<le> 1 then Inr x
      else if odd (length x) then Inl RangeError
      else
        (case fft (map (\<lambda>i. x ! (2 * i)) [0..<length x div 2]) of
           Inl e \<Rightarrow> Inl e
         | Inr evenFFT \<Rightarrow>
            (case fft (map (\<lambda>i. x ! (2 * i + 1)) [0..<length x div 2]) of
               Inl e \<Rightarrow> Inl e
             | Inr oddFFT \<Rightarrow>
                 Inr (map (\<lambda>k. add (evenFFT ! k)
                              (multiply (oddFFT ! k)
                                 (fromPolar 1 (- 2 * pi * real k / real (length x)))))
                        [0..<length x div 2]
                      @ map (\<lambda>k. subtract (evenFFT ! k)
                              (multiply (oddFFT ! k)
                                 (fromPolar 1 (- 2 * pi * real k / real (length x)))))
                        [0..<length x div 2]))))"
  by pat_completeness auto
termination
  by (relation "measure length") auto

function ifft :: "complex list \<Rightarrow> error + complex list" where
  "ifft x =
     (if length x \<le> 1 then Inr x
      else if odd (length x) then Inl RangeError
      else
        (case ifft (map (\<lambda>i. x ! (2 * i)) [0..<length x div 2]) of
           Inl e \<Rightarrow> Inl e
         | Inr evenIFFT \<Rightarrow>
            (case ifft (map (\<lambda>i. x ! (2 * i + 1)) [0..<length x div 2]) of
               Inl e \<Rightarrow> Inl e
             | Inr oddIFFT \<Rightarrow>
                 Inr (map (\<lambda>k. scale (add (evenIFFT ! k)
                              (multiply (oddIFFT ! k)
                                 (fromPolar 1 (2 * pi * real k / real (length x))))) 0.5)
                        [0..<length x div 2]
                      @ map (\<lambda>k. scale (subtract (evenIFFT ! k)
                              (multiply (oddIFFT ! k)
                                 (fromPolar 1 (2 * pi * real k / real (length x))))) 0.5)
                        [0..<length x div 2]))))"
  by pat_completeness auto
termination
  by (relation "measure length") auto

declare fft.simps [simp del] ifft.simps [simp del]

subsection \<open>fft and ifft in double precision\<close>

text \<open>
  The same two functions once more, with the arithmetic of the source. A JavaScript
  number is an IEEE 754 binary64 value, and an operation returns its exact result rounded
  to the nearest such value, ties to the even significand. A finite number is the real it
  denotes; the two zeros are one value, which no operation of \<^verbatim>\<open>fft\<close> and \<^verbatim>\<open>ifft\<close> tells
  apart. \<open>None\<close> stands for the values that are not finite (the two infinities and
  \<^verbatim>\<open>NaN\<close>): every operation used below returns a value that is not finite when one of its
  operands is not finite.

  \<open>pow2 e\<close> is \<open>2\<^sup>e\<close>. \<open>expo x\<close> is the exponent of \<open>x\<close>, that is the largest \<open>e\<close> with
  \<open>2\<^sup>e \<le> |x|\<close>, kept between \<open>-1022\<close> (below it the numbers are subnormal) and 1023; the
  doubles around \<open>x\<close> are the multiples of \<open>pow2 (expo x - 52)\<close>. \<open>fl x\<close> is the double
  nearest to \<open>x\<close>; a rounded magnitude of \<open>2\<^sup>1\<^sup>0\<^sup>2\<^sup>4\<close> or more is an infinity.
\<close>

type_synonym double = "real option"

definition pow2 :: "int \<Rightarrow> real" where
  "pow2 e = (if 0 \<le> e then 2 ^ nat e else 1 / 2 ^ nat (- e))"

definition expo :: "real \<Rightarrow> int" where
  "expo x = Max (insert (- 1022) {e \<in> {- 1022 .. 1023}. pow2 e \<le> \<bar>x\<bar>})"

definition round_even :: "real \<Rightarrow> int" where
  "round_even r =
     (let f = \<lfloor>r\<rfloor>; d = r - of_int f
      in if d < 1 / 2 then f else if 1 / 2 < d then f + 1 else if even f then f else f + 1)"

definition fl :: "real \<Rightarrow> double" where
  "fl x =
     (let q = pow2 (expo x - 52);
          r = of_int (round_even (x / q)) * q
      in if \<bar>r\<bar> < pow2 1024 then Some r else None)"

text \<open>The operators \<^verbatim>\<open>+\<close>, \<^verbatim>\<open>-\<close> and \<^verbatim>\<open>*\<close>, and \<^verbatim>\<open>/\<close> with a finite divisor: the only
  divisor of the two functions is the length of an array. A division by 0 gives an
  infinity or \<^verbatim>\<open>NaN\<close>.\<close>

definition num_add :: "double \<Rightarrow> double \<Rightarrow> double" where
  "num_add a b = (case a of None \<Rightarrow> None | Some x \<Rightarrow> (case b of None \<Rightarrow> None | Some y \<Rightarrow> fl (x + y)))"

definition num_sub :: "double \<Rightarrow> double \<Rightarrow> double" where
  "num_sub a b = (case a of None \<Rightarrow> None | Some x \<Rightarrow> (case b of None \<Rightarrow> None | Some y \<Rightarrow> fl (x - y)))"

definition num_mul :: "double \<Rightarrow> double \<Rightarrow> double" where
  "num_mul a b = (case a of None \<Rightarrow> None | Some x \<Rightarrow> (case b of None \<Rightarrow> None | Some y \<Rightarrow> fl (x * y)))"

definition num_div :: "double \<Rightarrow> real \<Rightarrow> double" where
  "num_div a y = (case a of None \<Rightarrow> None | Some x \<Rightarrow> if y = 0 then None else fl (x / y))"













subsection \<open>PlateauProcessor (the worklet)\<close>

record filter_params =
  centerFreq :: real
  width :: real
  flatWidth :: real
  gain :: real

record processor = filter_params +
  fftSize :: nat
  fftBuffer :: "real list"
  fftPosition :: nat
  overlappedOutput :: "real list"
  processedOutput :: "real list"
  hanningWindow :: "real list"

text \<open>The constructor, with the value stored in \<^verbatim>\<open>this.fftSize\<close> as a parameter; the
  source stores 2048.\<close>

definition constructor_with :: "nat \<Rightarrow> processor" where
  "constructor_with size' =
     \<lparr> centerFreq = 10000, width = 5000, flatWidth = 2000, gain = 0,
       fftSize = size',
       fftBuffer = replicate size' 0,
       fftPosition = 0,
       overlappedOutput = replicate size' 0,
       processedOutput = replicate size' 0,
       hanningWindow =
         for_upto size'
           (\<lambda>i w. w[i := 0.5 * (1 - cos (2 * pi * real i / (real size' - 1)))])
           (replicate size' 0) \<rparr>"

definition constructor :: processor where
  "constructor = constructor_with 2048"

text \<open>A parameter message, and equally the first elements of the \<^verbatim>\<open>parameters\<close> arrays
  handed to \<^verbatim>\<open>process\<close>: \<open>None\<close> is \<^verbatim>\<open>undefined\<close>.\<close>

record parameters =
  param_centerFreq :: "real option"
  param_width :: "real option"
  param_flatWidth :: "real option"
  param_gain :: "real option"

definition handleMessage :: "processor \<Rightarrow> parameters \<Rightarrow> processor" where
  "handleMessage this params =
     (let this = (case param_centerFreq params of Some v \<Rightarrow> this\<lparr>centerFreq := v\<rparr> | None \<Rightarrow> this);
          this = (case param_width params of Some v \<Rightarrow> this\<lparr>width := v\<rparr> | None \<Rightarrow> this);
          this = (case param_flatWidth params of Some v \<Rightarrow> this\<lparr>flatWidth := v\<rparr> | None \<Rightarrow> this);
          this = (case param_gain params of Some v \<Rightarrow> this\<lparr>gain := v\<rparr> | None \<Rightarrow> this)
      in this)"

text \<open>\<^verbatim>\<open>createPlateauFilterMask\<close> of the worklet; \<^verbatim>\<open>sampleRate\<close> is a global of the
  worklet scope and comes first here.\<close>

definition createPlateauFilterMask :: "real \<Rightarrow> real \<Rightarrow> real \<Rightarrow> real \<Rightarrow> nat \<Rightarrow> real list" where
  "createPlateauFilterMask sampleRate centerFreq' width' flatWidth' size' =
     (let mask = replicate size' 0;
          freqs = replicate size' 0;
          freqs = for_upto size'
            (\<lambda>i freqs.
               if real i \<le> real size' / 2
               then freqs[i := real i * sampleRate / real size']
               else freqs[i := (real i - real size') * sampleRate / real size'])
            freqs;
          mask = for_upto size'
            (\<lambda>i mask.
               let freq = \<bar>freqs ! i\<bar>;
                   absDiff = \<bar>freq - centerFreq'\<bar>
               in if absDiff < flatWidth' / 2 then mask[i := 1]
                  else if absDiff < width' / 2
                  then mask[i := 0.5 * (1 + cos (pi * (absDiff - flatWidth' / 2)
                                                  / (width' / 2 - flatWidth' / 2)))]
                  else mask[i := 0])
            mask
      in mask[0 := 0])"

text \<open>Lines 213 to 225 of \<^verbatim>\<open>process\<close>: the parameters are latched and the width is
  clamped.\<close>

definition latch :: "processor \<Rightarrow> parameters \<Rightarrow> processor" where
  "latch this params =
     (let this = this\<lparr>centerFreq := (case param_centerFreq params of Some v \<Rightarrow> v | None \<Rightarrow> centerFreq this)\<rparr>;
          this = this\<lparr>width := (case param_width params of Some v \<Rightarrow> v | None \<Rightarrow> width this)\<rparr>;
          this = this\<lparr>flatWidth := (case param_flatWidth params of Some v \<Rightarrow> v | None \<Rightarrow> flatWidth this)\<rparr>;
          this = this\<lparr>gain := (case param_gain params of Some v \<Rightarrow> v | None \<Rightarrow> gain this)\<rparr>
      in this\<lparr>width := max (width this) (flatWidth this + 1)\<rparr>)"

text \<open>Lines 285 to 295: the loop over the output block. Its state is the output block
  and the overlap buffer.\<close>

definition overlap_add :: "real list \<Rightarrow> nat \<Rightarrow> real list \<times> real list \<Rightarrow> real list \<times> real list" where
  "overlap_add processed size' =
     (\<lambda>(output, overlapped).
        for_upto (length output)
          (\<lambda>i (output', overlapped').
             let output' = output'[i := processed ! i + overlapped' ! i]
             in if i + length output < size'
                then (output', overlapped'[i := processed ! (i + length output)])
                else (output', overlapped'[i := 0]))
          (output, overlapped))"

text \<open>
  \<^verbatim>\<open>process\<close>. The two transforms are the globals \<^verbatim>\<open>fft\<close> and \<^verbatim>\<open>ifft\<close> of the worklet
  scope; \<open>process_with\<close> takes them as arguments, and \<open>process\<close> passes the two functions
  above. \<^verbatim>\<open>inputs\<close> and \<^verbatim>\<open>outputs\<close> are arrays (one entry per input or output) of arrays
  (one entry per channel) of sample blocks. \<^verbatim>\<open>outputs[0][0]\<close> raises \<^verbatim>\<open>TypeError\<close> when
  \<^verbatim>\<open>outputs\<close> is empty. A sample block is an object, so \<^verbatim>\<open>!input\<close> is false, and
  \<^verbatim>\<open>!output\<close> holds exactly when the first output has no channel. The method always
  returns \<^verbatim>\<open>true\<close>; the model returns the processor and the output arrays after the call.
  The loop over \<^verbatim>\<open>fftOutput\<close> is written for a transform that returns an array of the
  length of its argument, as \<^verbatim>\<open>fft\<close> and \<^verbatim>\<open>ifft\<close> do.
\<close>

definition process_with ::
  "(complex list \<Rightarrow> error + complex list) \<Rightarrow> (complex list \<Rightarrow> error + complex list) \<Rightarrow>
   real \<Rightarrow> processor \<Rightarrow> real list list list \<Rightarrow> real list list list \<Rightarrow> parameters \<Rightarrow>
   error + processor \<times> real list list list" where
  "process_with fft_fn ifft_fn sampleRate this0 inputs outputs params =
     (let this = latch this0 params in
      if inputs = [] \<or> hd inputs = [] then Inr (this, outputs)
      else
        let input = hd (hd inputs) in
        (case outputs of
           [] \<Rightarrow> Inl TypeError
         | [] # outs \<Rightarrow> Inr (this, outputs)
         | (output # chans) # outs \<Rightarrow>
             if gain this = 0
             then Inr (this,
                    (for_upto (length output) (\<lambda>i output. output[i := 0]) output # chans) # outs)
             else
               let inputBuffer = for_upto (length input)
                     (\<lambda>i inputBuffer. inputBuffer[i := input ! i * hanningWindow this ! i])
                     (replicate (fftSize this) 0);
                   fftInput = map (\<lambda>i. Complex (inputBuffer ! i) 0) [0..<fftSize this]
               in
               (case fft_fn fftInput of
                  Inl e \<Rightarrow> Inl e
                | Inr fftOutput \<Rightarrow>
                    let filterMask = createPlateauFilterMask sampleRate
                          (centerFreq this) (width this) (flatWidth this) (fftSize this);
                        fftOutput = for_upto (fftSize this)
                          (\<lambda>i fftOutput.
                             fftOutput[i := scale (fftOutput ! i) (filterMask ! i * gain this)])
                          fftOutput
                    in
                    (case ifft_fn fftOutput of
                       Inl e \<Rightarrow> Inl e
                     | Inr ifftOutput \<Rightarrow>
                         let processed = for_upto (fftSize this)
                               (\<lambda>i processed.
                                  processed[i := Re (ifftOutput ! i) * hanningWindow this ! i])
                               (processedOutput this);
                             (output', overlapped) =
                                overlap_add processed (fftSize this) (output, overlappedOutput this)
                         in Inr (this\<lparr>processedOutput := processed, overlappedOutput := overlapped\<rparr>,
                                 (output' # chans) # outs)))))"

definition process ::
  "real \<Rightarrow> processor \<Rightarrow> real list list list \<Rightarrow> real list list list \<Rightarrow> parameters \<Rightarrow>
   error + processor \<times> real list list list" where
  "process = process_with fft ifft"

text \<open>
  The three tables of a processor have the FFT size as their length. The constructor
  makes them so and \<^verbatim>\<open>process\<close> keeps them so (lemmas \<open>well_formed_constructor\<close> and
  \<open>well_formed_process\<close>); for such a processor and an output block that is not longer
  than the FFT size, every array read of the overlap-add stage is within range.
\<close>

definition well_formed :: "processor \<Rightarrow> bool" where
  "well_formed this =
     (length (overlappedOutput this) = fftSize this \<and>
      length (processedOutput this) = fftSize this \<and>
      length (hanningWindow this) = fftSize this)"

subsection \<open>PlateauFilter (main thread) and its fallback callback\<close>

text \<open>
  \<^verbatim>\<open>this.processor\<close> is \<^verbatim>\<open>undefined\<close> until a node is created (\<open>None\<close>). A node with a
  \<^verbatim>\<open>parameters\<close> map holds the four values last written to it, a node with only a port
  the messages posted to it, and a script processor node has neither.
\<close>

datatype processor_node =
    ParamNode "real \<times> real \<times> real \<times> real"
  | PortNode "(real \<times> real \<times> real \<times> real) list"
  | ScriptNode

record plateau_filter = filter_params +
  context_sampleRate :: real
  processor_node :: "processor_node option"

definition updateParameters :: "plateau_filter \<Rightarrow> plateau_filter" where
  "updateParameters this =
     (case processor_node this of
        None \<Rightarrow> this
      | Some (ParamNode _) \<Rightarrow>
          this\<lparr>processor_node :=
            Some (ParamNode (centerFreq this, width this, flatWidth this, gain this))\<rparr>
      | Some (PortNode msgs) \<Rightarrow>
          this\<lparr>processor_node :=
            Some (PortNode (msgs @ [(centerFreq this, width this, flatWidth this, gain this)]))\<rparr>
      | Some ScriptNode \<Rightarrow> this)"

definition setCenterFreq :: "plateau_filter \<Rightarrow> real \<Rightarrow> plateau_filter" where
  "setCenterFreq this v = updateParameters (this\<lparr>centerFreq := v\<rparr>)"

definition setWidth :: "plateau_filter \<Rightarrow> real \<Rightarrow> plateau_filter" where
  "setWidth this v =
     (let newWidth = max v (flatWidth this + 1)
      in if newWidth \<noteq> width this then updateParameters (this\<lparr>width := newWidth\<rparr>) else this)"

definition setFlatWidth :: "plateau_filter \<Rightarrow> real \<Rightarrow> plateau_filter" where
  "setFlatWidth this v =
     (let newFlatWidth = min v (width this - 1)
      in if newFlatWidth \<noteq> flatWidth this
         then updateParameters (this\<lparr>flatWidth := newFlatWidth\<rparr>) else this)"

definition setGain :: "plateau_filter \<Rightarrow> real \<Rightarrow> plateau_filter" where
  "setGain this v =
     (if gain this \<noteq> v then updateParameters (this\<lparr>gain := v\<rparr>) else this)"

definition calculateMask :: "plateau_filter \<Rightarrow> real \<Rightarrow> real" where
  "calculateMask this freq =
     (let freqDiff = \<bar>freq - centerFreq this\<bar>;
          flatHalfWidth = flatWidth this / 2;
          totalHalfWidth = width this / 2
      in if freqDiff < flatHalfWidth then 1
         else if freqDiff \<le> totalHalfWidth
         then 0.5 * (1 + cos (pi * (freqDiff - flatHalfWidth) / (totalHalfWidth - flatHalfWidth)))
         else 0)"

definition applyWindow :: "real list \<Rightarrow> real list" where
  "applyWindow buffer =
     (let size' = length buffer
      in for_upto size'
           (\<lambda>i buffer.
              let window = 0.5 * (1 - cos (2 * pi * real i / (real size' - 1)))
              in buffer[i := buffer ! i * window])
           buffer)"

definition calculateFFT :: "real list \<Rightarrow> real list" where
  "calculateFFT buffer = buffer"

definition calculateIFFT :: "real list \<Rightarrow> real list" where
  "calculateIFFT spectrum = spectrum"

definition applyFilter :: "plateau_filter \<Rightarrow> real list \<Rightarrow> real list" where
  "applyFilter this spectrum =
     (let nyquist = context_sampleRate this / 2;
          binCount = length spectrum
      in for_upto binCount
           (\<lambda>i spectrum.
              let freq = real i * nyquist / real binCount;
                  mask = calculateMask this freq
              in spectrum[i := spectrum ! i * mask])
           spectrum)"

text \<open>\<^verbatim>\<open>_processAudio\<close>: the argument is the first channel of the event's input buffer and
  of its output buffer, the result the output channel after the call.
  \<^verbatim>\<open>_applyFilter\<close> changes in place the array that \<^verbatim>\<open>_calculateFFT\<close> returned.\<close>

definition processAudio :: "plateau_filter \<Rightarrow> real list \<Rightarrow> real list \<Rightarrow> real list" where
  "processAudio this inputData outputData =
     (let bufferSize = length inputData;
          tempBuffer = replicate bufferSize 0;
          tempBuffer = for_upto bufferSize (\<lambda>i tempBuffer. tempBuffer[i := inputData ! i]) tempBuffer;
          tempBuffer = applyWindow tempBuffer;
          fft' = calculateFFT tempBuffer;
          fft' = applyFilter this fft';
          ifft' = calculateIFFT fft'
      in for_upto bufferSize (\<lambda>i outputData. outputData[i := ifft' ! i * gain this]) outputData)"

subsection \<open>The FFT module ftt.js\<close>

definition createFrequencyArray :: "nat \<Rightarrow> real \<Rightarrow> real list" where
  "createFrequencyArray n sampleRate =
     (let freqs = replicate n 0;
          df = sampleRate / real n;
          freqs = for_range 0 (n div 2 + 1) (\<lambda>i freqs. freqs[i := real i * df]) freqs;
          freqs = for_range (n div 2 + 1) n (\<lambda>i freqs. freqs[i := (real i - real n) * df]) freqs
      in freqs)"

text \<open>\<^verbatim>\<open>Math.round\<close> rounds a half upwards.\<close>

definition Math_round :: "real \<Rightarrow> int" where
  "Math_round x = \<lfloor>x + 1 / 2\<rfloor>"

text \<open>
  \<^verbatim>\<open>createPlateauFilterMask\<close> of ftt.js. After the mask is built, the function logs
  \<^verbatim>\<open>mask[j].toFixed(3)\<close> at five indices \<^verbatim>\<open>j\<close>. Where \<^verbatim>\<open>mask[j]\<close> is \<^verbatim>\<open>undefined\<close>
  (\<^verbatim>\<open>j\<close> is not an index of the mask), the method call raises \<^verbatim>\<open>TypeError\<close>. That is so
  for index 0 of an empty mask, and for the indices computed from
  \<^verbatim>\<open>freqStep = frequencies[1] - frequencies[0]\<close> when that is \<^verbatim>\<open>NaN\<close> (fewer than two
  frequencies), when it is 0 (the quotient is infinite) and when the rounded quotient
  falls outside the mask.
\<close>

definition is_index :: "int \<Rightarrow> nat \<Rightarrow> bool" where
  "is_index j n = (0 \<le> j \<and> j < int n)"

definition ftt_createPlateauFilterMask ::
  "real list \<Rightarrow> real \<Rightarrow> real \<Rightarrow> real \<Rightarrow> error + real list" where
  "ftt_createPlateauFilterMask frequencies targetFreq width' delta =
     (let n = length frequencies;
          mask = replicate n 0;
          mask = for_upto n
            (\<lambda>i mask.
               let freq = \<bar>frequencies ! i\<bar>;
                   absDiff = \<bar>freq - targetFreq\<bar>
               in if absDiff < delta then mask[i := 1]
                  else if absDiff < width'
                  then mask[i := 0.5 * (1 + cos (pi * (absDiff - delta) / (width' - delta)))]
                  else mask[i := 0])
            mask;
          mask = mask[0 := 0]
      in if n < 2 then Inl TypeError
         else
           let freqStep = frequencies ! 1 - frequencies ! 0;
               targetBin = Math_round (targetFreq / freqStep)
           in if freqStep = 0 then Inl TypeError
              else if \<not> is_index (Math_round (5000 / freqStep)) n then Inl TypeError
              else if \<not> is_index targetBin n then Inl TypeError
              else if \<not> is_index (Math_round (15000 / freqStep)) n then Inl TypeError
              else Inr mask)"

text \<open>\<^verbatim>\<open>Math.pow(2, Math.ceil(Math.log2(n)))\<close>; \<^verbatim>\<open>Math.log2(0)\<close> is minus infinity and the
  power is then 0.\<close>

definition paddedLength_of :: "nat \<Rightarrow> nat" where
  "paddedLength_of n = (if n = 0 then 0 else 2 ^ nat \<lceil>log 2 (real n)\<rceil>)"

definition applyFFTFilter ::
  "real list \<Rightarrow> real \<Rightarrow> real \<Rightarrow> real \<Rightarrow> real \<Rightarrow> error + real list" where
  "applyFFTFilter samples sampleRate targetFreq width' delta =
     (let paddedLength = paddedLength_of (length samples);
          paddedInput = map (\<lambda>i. Complex (samples ! i) 0) [0..<length samples]
                        @ map (\<lambda>i. Complex 0 0) [length samples..<paddedLength];
          freqArray = createFrequencyArray paddedLength sampleRate
      in
      (case ftt_createPlateauFilterMask freqArray targetFreq width' delta of
         Inl e \<Rightarrow> Inl e
       | Inr filterMask \<Rightarrow>
          (case fft paddedInput of
             Inl e \<Rightarrow> Inl e
           | Inr fftResult \<Rightarrow>
               let filteredFFT = map (\<lambda>i.
                       let val = fftResult ! i; mask = filterMask ! i
                       in Complex (Re val * mask) (Im val * mask))
                     [0..<length fftResult]
               in
               (case ifft filteredFFT of
                  Inl e \<Rightarrow> Inl e
                | Inr ifftResult \<Rightarrow>
                    let result = replicate (length samples) 0;
                        (result, maxAmp) = for_upto (length samples)
                          (\<lambda>i (result, maxAmp).
                             let result = result[i := Re (ifftResult ! i)]
                             in (result, max maxAmp \<bar>result ! i\<bar>))
                          (result, 0);
                        result = (if maxAmp > 0
                                  then for_upto (length samples)
                                         (\<lambda>i result. result[i := result ! i / maxAmp]) result
                                  else result)
                    in Inr result))))"

subsection \<open>Names for the intermediate arrays of process\<close>

text \<open>The array \<^verbatim>\<open>fftInput\<close> of lines 249 to 258, the array \<^verbatim>\<open>fftOutput\<close> after the
  loop of lines 272 to 274, and \<^verbatim>\<open>this.processedOutput\<close> after the loop of lines 280 to
  282, each as a function of what it is computed from.\<close>

definition fftInput_of :: "processor \<Rightarrow> real list \<Rightarrow> complex list" where
  "fftInput_of this input =
     map (\<lambda>i. Complex
            (for_upto (length input)
               (\<lambda>i inputBuffer. inputBuffer[i := input ! i * hanningWindow this ! i])
               (replicate (fftSize this) 0) ! i) 0)
       [0..<fftSize this]"

definition masked_of :: "real \<Rightarrow> processor \<Rightarrow> complex list \<Rightarrow> complex list" where
  "masked_of sampleRate this fftOutput =
     for_upto (fftSize this)
       (\<lambda>i fftOutput.
          fftOutput[i := scale (fftOutput ! i)
             (createPlateauFilterMask sampleRate (centerFreq this) (width this) (flatWidth this)
                (fftSize this) ! i * gain this)])
       fftOutput"

definition processed_of :: "processor \<Rightarrow> complex list \<Rightarrow> real list" where
  "processed_of this ifftOutput =
     for_upto (fftSize this)
       (\<lambda>i processed. processed[i := Re (ifftOutput ! i) * hanningWindow this ! i])
       (processedOutput this)"


subsection \<open>The discrete Fourier transform\<close>

text \<open>
  The transform that \<^verbatim>\<open>fft\<close> and \<^verbatim>\<open>ifft\<close> are meant to compute, written as the sums that
  define it: \<open>twiddle s N e\<close> is the \<open>N\<close>-th root of unity to the power \<open>s * e\<close>,
  \<open>dft\<close> is the forward transform and \<open>idft\<close> the inverse one with its factor \<open>1/N\<close>.
  These definitions are not taken from the source; the functions of the source are
  proved equal to them on lengths that are powers of two.
\<close>

definition twiddle :: "int \<Rightarrow> nat \<Rightarrow> nat \<Rightarrow> complex" where
  "twiddle s N e = cis (2 * pi * (of_int s * real e / real N))"

definition dft_sum :: "int \<Rightarrow> complex list \<Rightarrow> nat \<Rightarrow> complex" where
  "dft_sum s x k = (\<Sum>j<length x. x ! j * twiddle s (length x) (j * k))"

definition dft :: "complex list \<Rightarrow> complex list" where
  "dft x = map (dft_sum (- 1) x) [0..<length x]"

definition idft :: "complex list \<Rightarrow> complex list" where
  "idft x = map (\<lambda>k. dft_sum 1 x k / of_nat (length x)) [0..<length x]"

subsection \<open>A test scenario\<close>

text \<open>
  Entry \<open>i\<close> of the window table that the constructor computes for its FFT size 2048.
\<close>

definition hanning :: "nat \<Rightarrow> real" where
  "hanning i = 0.5 * (1 - cos (2 * pi * real i / 2047))"

text \<open>
  A block of 128 samples (the size of a render quantum) that is 0 but for a 1 at index 64;
  parameters that select one bin: at a sample rate of 44100 Hz the bins of the 2048-point
  transform are 44100/2048 Hz apart, bin 512 lies at 11025 Hz, and with a width of 2 Hz
  and a flat width of 1 Hz only bins 512 and 1536 (the same frequency, negative) pass.
  \<open>bypass_params\<close> are the same parameters with gain 0, and \<open>fallback_filter\<close> is a
  \<^verbatim>\<open>PlateauFilter\<close> on its script processor with the same four parameters.
\<close>

definition impulse_block :: "real list" where
  "impulse_block = (replicate 128 0)[64 := 1]"

definition narrow_params :: parameters where
  "narrow_params = \<lparr>param_centerFreq = Some 11025, param_width = Some 2,
     param_flatWidth = Some 1, param_gain = Some 1\<rparr>"

definition bypass_params :: parameters where
  "bypass_params = \<lparr>param_centerFreq = Some 11025, param_width = Some 2,
     param_flatWidth = Some 1, param_gain = Some 0\<rparr>"

definition fallback_filter :: plateau_filter where
  "fallback_filter = \<lparr>centerFreq = 11025, width = 2, flatWidth = 1, gain = 1,
     context_sampleRate = 44100, processor_node = Some ScriptNode\<rparr>"

text \<open>
  A second scenario, with the block sizes of the two paths as they are set up: the stream
  is 0 but for a 1 at sample 127; the worklet is called with its first 128 samples, the
  script processor with its first 2048. The centre frequency 1400175/1024 Hz is
  \<open>127 * 22050 / 2048\<close>, the frequency that the fallback assigns to index 127, and lies
  halfway between bins 63 and 64 of the worklet's transform.
\<close>

definition halfbin_params :: parameters where
  "halfbin_params = \<lparr>param_centerFreq = Some (1400175 / 1024), param_width = Some 2,
     param_flatWidth = Some 1, param_gain = Some 1\<rparr>"

definition halfbin_filter :: plateau_filter where
  "halfbin_filter = \<lparr>centerFreq = 1400175 / 1024, width = 2, flatWidth = 1, gain = 1,
     context_sampleRate = 44100, processor_node = Some ScriptNode\<rparr>"

definition late_impulse :: "nat \<Rightarrow> real list" where
  "late_impulse n = (replicate n 0)[127 := 1]"

text \<open>The processor and the output block after \<^verbatim>\<open>process\<close> has run on that block, from
  the processor as constructed. (\<open>projr\<close> takes the result out of \<open>Inr\<close>; lemma
  \<open>impulse_run\<close> shows that the call returns.)\<close>

definition impulse_state :: processor where
  "impulse_state =
     fst (projr (process 44100 constructor [[impulse_block]] [[replicate 128 0]] narrow_params))"

definition impulse_output :: "real list" where
  "impulse_output =
     hd (hd (snd (projr (process 44100 constructor [[impulse_block]] [[replicate 128 0]]
        narrow_params))))"

section \<open>Lemmas\<close>

subsection \<open>The methods of Complex\<close>

lemma multiply_eq: "multiply a b = a * b"
  by (simp add: multiply_def complex_eq_iff)
lemma fromPolar_eq: "fromPolar 1 t = cis t"
  by (simp add: fromPolar_def complex_eq_iff)
lemma scale_eq: "scale a r = a * of_real r"
  by (simp add: scale_def complex_eq_iff)
lemma add_eq: "add a b = a + b"
  by (simp add: add_def complex_eq_iff)
lemma subtract_eq: "subtract a b = a - b"
  by (simp add: subtract_def complex_eq_iff)

subsection \<open>fft and ifft compute the discrete Fourier transform\<close>

lemma twiddle_add: "twiddle s N (a + b) = twiddle s N a * twiddle s N b"
  by (simp add: twiddle_def cis_mult algebra_simps add_divide_distrib)

lemma twiddle_period: "0 < N \<Longrightarrow> twiddle s N (N * q) = 1"
proof -
  assume "0 < N"
  then have "of_int s * real (N * q) / real N = of_int (s * int q)" by simp
  then show ?thesis unfolding twiddle_def by (metis cis_multiple_2pi Ints_of_int)
qed

lemma twiddle_double: "0 < M \<Longrightarrow> twiddle s (2 * M) (2 * e) = twiddle s M e"
  by (simp add: twiddle_def)

lemma twiddle_half:
  assumes "0 < M" and "s = 1 \<or> s = - 1"
  shows "twiddle s (2 * M) M = - 1"
proof -
  from \<open>0 < M\<close> have "2 * pi * (of_int s * real M / real (2 * M)) = of_int s * pi" by simp
  then have "twiddle s (2 * M) M = cis (of_int s * pi)" by (simp only: twiddle_def)
  also have "\<dots> = - 1" using assms(2) by (auto simp: complex_eq_iff)
  finally show ?thesis .
qed

lemma sum_even_odd:
  "(\<Sum>j<2 * M. f j) = (\<Sum>i<M. f (2 * i)) + (\<Sum>i<(M::nat). f (2 * i + 1) :: complex)"
  by (induction M) (simp_all add: algebra_simps)

lemma dft_sum_split:
  assumes len: "length x = 2 * M" and M: "0 < M"
  shows "dft_sum s x k =
     dft_sum s (map (\<lambda>i. x ! (2 * i)) [0..<M]) k
     + twiddle s (2 * M) k * dft_sum s (map (\<lambda>i. x ! (2 * i + 1)) [0..<M]) k"
proof -
  have e: "x ! (2 * i) * twiddle s (2 * M) (2 * i * k) = x ! (2 * i) * twiddle s M (i * k)" for i
    using twiddle_double [OF M, of s "i * k"] by (simp add: mult.assoc)
  have o: "x ! (2 * i + 1) * twiddle s (2 * M) ((2 * i + 1) * k)
        = twiddle s (2 * M) k * (x ! (2 * i + 1) * twiddle s M (i * k))" for i
  proof -
    have "(2 * i + 1) * k = 2 * (i * k) + k" by (simp add: algebra_simps)
    then have "twiddle s (2 * M) ((2 * i + 1) * k)
        = twiddle s (2 * M) (2 * (i * k)) * twiddle s (2 * M) k"
      by (simp only: twiddle_add)
    also have "\<dots> = twiddle s M (i * k) * twiddle s (2 * M) k"
      by (simp only: twiddle_double [OF M])
    finally show ?thesis by (simp add: mult_ac)
  qed
  have "dft_sum s x k = (\<Sum>j<2 * M. x ! j * twiddle s (2 * M) (j * k))"
    by (simp add: dft_sum_def len)
  also have "\<dots> = (\<Sum>i<M. x ! (2 * i) * twiddle s M (i * k))
      + (\<Sum>i<M. twiddle s (2 * M) k * (x ! (2 * i + 1) * twiddle s M (i * k)))"
    by (simp only: sum_even_odd e o)
  also have "\<dots> = dft_sum s (map (\<lambda>i. x ! (2 * i)) [0..<M]) k
     + twiddle s (2 * M) k * dft_sum s (map (\<lambda>i. x ! (2 * i + 1)) [0..<M]) k"
    by (simp add: dft_sum_def sum_distrib_left)
  finally show ?thesis .
qed

lemma dft_sum_periodic:
  assumes "length x = M" and "0 < M"
  shows "dft_sum s x (k + M) = dft_sum s x k"
proof -
  have "twiddle s M (j * (k + M)) = twiddle s M (j * k)" for j
  proof -
    have "j * (k + M) = j * k + M * j" by (simp add: algebra_simps)
    then show ?thesis by (simp add: twiddle_add twiddle_period [OF assms(2)])
  qed
  then show ?thesis by (simp add: dft_sum_def assms(1))
qed

lemma dft_sum_upper:
  assumes len: "length x = 2 * M" and M: "0 < M" and s: "s = 1 \<or> s = - 1"
  shows "dft_sum s x (k + M) =
     dft_sum s (map (\<lambda>i. x ! (2 * i)) [0..<M]) k
     - twiddle s (2 * M) k * dft_sum s (map (\<lambda>i. x ! (2 * i + 1)) [0..<M]) k"
proof -
  have "twiddle s (2 * M) (k + M) = - twiddle s (2 * M) k"
    by (simp add: twiddle_add twiddle_half [OF M s])
  then show ?thesis
    by (simp add: dft_sum_split [OF len M] dft_sum_periodic [OF _ M])
qed

lemma upt_double: "[0..<2 * M] = [0..<M] @ map (\<lambda>k. k + M) [0..<M]"
proof -
  have "[0..<2 * M] = [0..<M] @ [M..<M + M]"
    by (metis upt_add_eq_append le0 mult_2 add_0)
  moreover have "[M..<M + M] = map (\<lambda>k. k + M) [0..<M]"
    by (simp add: map_add_upt)
  ultimately show ?thesis by simp
qed

lemma fft_dft: "length x = 2 ^ m \<Longrightarrow> fft x = Inr (dft x)"
proof (induction m arbitrary: x)
  case 0
  then obtain a where x: "x = [a]" by (cases x) auto
  show ?case by (simp add: x fft.simps dft_def dft_sum_def twiddle_def)
next
  case (Suc m)
  define M :: nat where "M = 2 ^ m"
  have M: "0 < M" and len: "length x = 2 * M" using Suc.prems by (simp_all add: M_def)
  let ?ev = "map (\<lambda>i. x ! (2 * i)) [0..<M]" and ?od = "map (\<lambda>i. x ! Suc (2 * i)) [0..<M]"
  have ev: "fft ?ev = Inr (dft ?ev)" and od: "fft ?od = Inr (dft ?od)"
    by (rule Suc.IH, simp add: M_def)+
  have tw: "fromPolar 1 (- 2 * pi * real k / real (2 * M)) = twiddle (- 1) (2 * M) k" for k
    by (simp add: fromPolar_eq twiddle_def)
  have "fft x = Inr (map (\<lambda>k. add (dft ?ev ! k) (multiply (dft ?od ! k) (twiddle (- 1) (2 * M) k))) [0..<M]
       @ map (\<lambda>k. subtract (dft ?ev ! k) (multiply (dft ?od ! k) (twiddle (- 1) (2 * M) k))) [0..<M])"
    using M ev od by (subst fft.simps) (simp add: len fromPolar_eq twiddle_def)
  also have "\<dots> = Inr (dft x)"
  proof -
    have lo: "add (dft ?ev ! k) (multiply (dft ?od ! k) (twiddle (- 1) (2 * M) k))
        = dft_sum (- 1) x k" if "k < M" for k
      using that
      by (simp add: dft_def add_eq multiply_eq dft_sum_split [OF len M] mult.commute)
    have hi: "subtract (dft ?ev ! k) (multiply (dft ?od ! k) (twiddle (- 1) (2 * M) k))
        = dft_sum (- 1) x (k + M)" if "k < M" for k
      using that
      by (simp add: dft_def subtract_eq multiply_eq dft_sum_upper [OF len M] mult.commute)
    have "dft x = map (dft_sum (- 1) x) [0..<M] @ map (\<lambda>k. dft_sum (- 1) x (k + M)) [0..<M]"
      by (simp add: dft_def len upt_double comp_def)
    moreover have "map (\<lambda>k. add (dft ?ev ! k) (multiply (dft ?od ! k) (twiddle (- 1) (2 * M) k))) [0..<M]
       @ map (\<lambda>k. subtract (dft ?ev ! k) (multiply (dft ?od ! k) (twiddle (- 1) (2 * M) k))) [0..<M]
       = map (dft_sum (- 1) x) [0..<M] @ map (\<lambda>k. dft_sum (- 1) x (k + M)) [0..<M]"
      by (intro arg_cong2 [where f = append] map_cong refl lo hi) simp_all
    ultimately show ?thesis by (simp only:)
  qed
  finally show ?case .
qed

lemma ifft_idft: "length x = 2 ^ m \<Longrightarrow> ifft x = Inr (idft x)"
proof (induction m arbitrary: x)
  case 0
  then obtain a where x: "x = [a]" by (cases x) auto
  show ?case by (simp add: x ifft.simps idft_def dft_sum_def twiddle_def)
next
  case (Suc m)
  define M :: nat where "M = 2 ^ m"
  have M: "0 < M" and len: "length x = 2 * M" using Suc.prems by (simp_all add: M_def)
  let ?ev = "map (\<lambda>i. x ! (2 * i)) [0..<M]" and ?od = "map (\<lambda>i. x ! Suc (2 * i)) [0..<M]"
  have ev: "ifft ?ev = Inr (idft ?ev)" and od: "ifft ?od = Inr (idft ?od)"
    by (rule Suc.IH, simp add: M_def)+
  have "ifft x = Inr (map (\<lambda>k. scale (add (idft ?ev ! k) (multiply (idft ?od ! k) (twiddle 1 (2 * M) k))) 0.5) [0..<M]
       @ map (\<lambda>k. scale (subtract (idft ?ev ! k) (multiply (idft ?od ! k) (twiddle 1 (2 * M) k))) 0.5) [0..<M])"
    using M ev od by (subst ifft.simps) (simp add: len fromPolar_eq twiddle_def)
  also have "\<dots> = Inr (idft x)"
  proof -
    have lo: "scale (add (idft ?ev ! k) (multiply (idft ?od ! k) (twiddle 1 (2 * M) k))) 0.5
        = dft_sum 1 x k / of_nat (2 * M)" if "k < M" for k
      using that M
      by (simp add: idft_def add_eq multiply_eq scale_eq dft_sum_split [OF len M]
          mult.commute add_divide_distrib)
    have hi: "scale (subtract (idft ?ev ! k) (multiply (idft ?od ! k) (twiddle 1 (2 * M) k))) 0.5
        = dft_sum 1 x (k + M) / of_nat (2 * M)" if "k < M" for k
      using that M
      by (simp add: idft_def subtract_eq multiply_eq scale_eq dft_sum_upper [OF len M]
          mult.commute diff_divide_distrib)
    have "idft x = map (\<lambda>k. dft_sum 1 x k / of_nat (2 * M)) [0..<M]
        @ map (\<lambda>k. dft_sum 1 x (k + M) / of_nat (2 * M)) [0..<M]"
      by (simp add: idft_def len upt_double comp_def)
    moreover have "map (\<lambda>k. scale (add (idft ?ev ! k) (multiply (idft ?od ! k) (twiddle 1 (2 * M) k))) 0.5) [0..<M]
       @ map (\<lambda>k. scale (subtract (idft ?ev ! k) (multiply (idft ?od ! k) (twiddle 1 (2 * M) k))) 0.5) [0..<M]
       = map (\<lambda>k. dft_sum 1 x k / of_nat (2 * M)) [0..<M]
        @ map (\<lambda>k. dft_sum 1 x (k + M) / of_nat (2 * M)) [0..<M]"
      by (intro arg_cong2 [where f = append] map_cong refl lo hi) simp_all
    ultimately show ?thesis by (simp only:)
  qed
  finally show ?case .
qed





subsection \<open>Loops\<close>

lemma for_range_Suc:
  "a \<le> b \<Longrightarrow> for_range a (Suc b) body s = body b (for_range a b body s)"
  by (simp add: for_range_def)

lemma for_range_empty: "b \<le> a \<Longrightarrow> for_range a b body s = s"
  by (simp add: for_range_def)

lemma for_range_update_length:
  "length (for_range a b (\<lambda>i s. s[i := h i s]) xs) = length xs"
proof (induction b)
  case 0 then show ?case by (simp add: for_range_empty)
next
  case (Suc b) then show ?case
    by (cases "a \<le> b") (simp_all add: for_range_Suc for_range_empty)
qed

lemma for_range_update_nth:
  "j < length xs \<Longrightarrow>
    for_range a b (\<lambda>i s. s[i := h i (s ! i)]) xs ! j
      = (if a \<le> j \<and> j < b then h j (xs ! j) else xs ! j)"
proof (induction b)
  case 0 then show ?case by (simp add: for_range_empty)
next
  case (Suc b)
  show ?case
  proof (cases "a \<le> b")
    case True
    have len: "length (for_range a b (\<lambda>i s. s[i := h i (s ! i)]) xs) = length xs"
      by (rule for_range_update_length)
    show ?thesis
    proof (cases "j = b")
      case True
      with \<open>a \<le> b\<close> Suc show ?thesis by (simp add: for_range_Suc len)
    next
      case False
      with \<open>a \<le> b\<close> Suc show ?thesis by (simp add: for_range_Suc len)
    qed
  next
    case False
    then have "\<not> (a \<le> j \<and> j < Suc b)" by arith
    moreover from False have "for_range a (Suc b) (\<lambda>i s. s[i := h i (s ! i)]) xs = xs"
      by (simp add: for_range_empty)
    ultimately show ?thesis by presburger
  qed
qed

lemma for_range_const_nth:
  "j < length xs \<Longrightarrow>
    for_range a b (\<lambda>i s. s[i := g i]) xs ! j = (if a \<le> j \<and> j < b then g j else xs ! j)"
  using for_range_update_nth [where h = "\<lambda>i _. g i"] by simp

subsection \<open>The mask generators\<close>

lemma list_update_if:
  "(if c then s[i := u] else s[i := v]) = s[i := (if c then u else v)]"
  by simp

lemma list_update_if3:
  "(if c then s[i := u] else if c' then s[i := v] else s[i := w])
     = s[i := (if c then u else if c' then v else w)]"
  by simp

lemma createPlateauFilterMask_length [simp]:
  "length (createPlateauFilterMask sr c w f n) = n"
  by (simp add: createPlateauFilterMask_def for_upto_def Let_def list_update_if list_update_if3
      for_range_update_length)

lemma createPlateauFilterMask_nth:
  assumes "i < n"
  shows "createPlateauFilterMask sr c w f n ! i =
    (if i = 0 then 0
     else let freq = (if real i \<le> real n / 2 then real i * sr / real n
                      else (real i - real n) * sr / real n);
              absDiff = \<bar>\<bar>freq\<bar> - c\<bar>
          in if absDiff < f / 2 then 1
             else if absDiff < w / 2
             then 0.5 * (1 + cos (pi * (absDiff - f / 2) / (w / 2 - f / 2)))
             else 0)"
  using assms
  by (simp add: createPlateauFilterMask_def for_upto_def Let_def list_update_if list_update_if3
      for_range_update_length for_range_const_nth nth_list_update)

lemma ftt_mask_Inr:
  assumes "ftt_createPlateauFilterMask fr t w d = Inr m"
  shows "length m = length fr \<and> 2 \<le> length fr \<and> m ! 0 = 0"
proof -
  from assms have "2 \<le> length fr"
    by (auto simp: ftt_createPlateauFilterMask_def Let_def split: if_splits)
  moreover from this have "fr \<noteq> []" by auto
  ultimately show ?thesis using assms
    by (auto simp: ftt_createPlateauFilterMask_def for_upto_def Let_def list_update_if
      list_update_if3 for_range_update_length split: if_splits)
qed

subsection \<open>process\<close>

lemma for_range_update_nth_other:
  "\<not> (a \<le> j \<and> j < b) \<Longrightarrow> for_range a b (\<lambda>i s. s[i := h i s]) xs ! j = xs ! j"
proof (induction b)
  case 0 then show ?case by (simp add: for_range_empty)
next
  case (Suc b)
  show ?case
  proof (cases "a \<le> b")
    case True
    with Suc.prems have "j \<noteq> b" "\<not> (a \<le> j \<and> j < b)" by auto
    with Suc.IH True show ?thesis by (simp add: for_range_Suc)
  next
    case False then show ?thesis by (simp add: for_range_empty)
  qed
qed

lemma for_upto_zero_fill:
  "for_upto (length xs) (\<lambda>i s. s[i := 0]) xs = replicate (length xs) (0::real)"
  by (rule nth_equalityI)
     (simp_all add: for_upto_def for_range_update_length for_range_const_nth)

lemma overlap_add_split:
  "for_range 0 k
     (\<lambda>i (output', overlapped').
        let output' = output'[i := processed ! i + overlapped' ! i]
        in if i + B < n
           then (output', overlapped'[i := processed ! (i + B)])
           else (output', overlapped'[i := 0]))
     (output, overlapped)
   = (for_range 0 k (\<lambda>i s. s[i := processed ! i + overlapped ! i]) output,
      for_range 0 k (\<lambda>i s. s[i := (if i + B < n then processed ! (i + B) else 0)]) overlapped)"
proof (induction k)
  case 0 show ?case by (simp add: for_range_empty)
next
  case (Suc k)
  have "for_range 0 k (\<lambda>i s. s[i := (if i + B < n then processed ! (i + B) else 0)]) overlapped ! k
      = overlapped ! k"
    by (rule for_range_update_nth_other) simp
  with Suc show ?case by (simp add: for_range_Suc Let_def)
qed

lemma overlap_add_eq:
  "overlap_add processed n (output, overlapped)
   = (for_range 0 (length output) (\<lambda>i s. s[i := processed ! i + overlapped ! i]) output,
      for_range 0 (length output)
        (\<lambda>i s. s[i := (if i + length output < n then processed ! (i + length output) else 0)])
        overlapped)"
  by (simp add: overlap_add_def for_upto_def overlap_add_split)

lemma overlap_add_props:
  assumes "overlap_add processed n (output, overlapped) = (output', overlapped')"
  shows "length output' = length output"
    and "length overlapped' = length overlapped"
    and "\<And>i. i < length output \<Longrightarrow> output' ! i = processed ! i + overlapped ! i"
    and "\<And>i. i < length output \<Longrightarrow> i < length overlapped \<Longrightarrow>
           overlapped' ! i = (if i + length output < n then processed ! (i + length output) else 0)"
    and "\<And>i. length output \<le> i \<Longrightarrow> overlapped' ! i = overlapped ! i"
  using assms
  by (auto simp: overlap_add_eq for_range_update_length for_range_const_nth
      for_range_update_nth_other)

lemma latch_fields [simp]:
  "gain (latch this params) = (case param_gain params of Some v \<Rightarrow> v | None \<Rightarrow> gain this)"
  "flatWidth (latch this params) = (case param_flatWidth params of Some v \<Rightarrow> v | None \<Rightarrow> flatWidth this)"
  "centerFreq (latch this params) = (case param_centerFreq params of Some v \<Rightarrow> v | None \<Rightarrow> centerFreq this)"
  "width (latch this params) = max (case param_width params of Some v \<Rightarrow> v | None \<Rightarrow> width this)
       (flatWidth (latch this params) + 1)"
  "fftSize (latch this params) = fftSize this"
  "overlappedOutput (latch this params) = overlappedOutput this"
  "processedOutput (latch this params) = processedOutput this"
  "hanningWindow (latch this params) = hanningWindow this"
  by (simp_all add: latch_def Let_def split: option.splits)

lemma process_with_bypass:
  assumes "inputs \<noteq> []" "hd inputs \<noteq> []" "outputs = (block # chans) # outs"
    "(case param_gain params of Some v \<Rightarrow> v | None \<Rightarrow> gain this) = 0"
  shows "process_with F I sr this inputs outputs params
     = Inr (latch this params, (replicate (length block) 0 # chans) # outs)"
  using assms by (simp add: process_with_def Let_def for_upto_zero_fill)


lemma process_with_pipeline:
  assumes "inputs \<noteq> []" "hd inputs \<noteq> []" "outputs = (block # chans) # outs"
    "gain (latch this0 params) \<noteq> 0"
  shows "process_with F I sr this0 inputs outputs params =
    (let this = latch this0 params in
     case F (fftInput_of this (hd (hd inputs))) of
       Inl e \<Rightarrow> Inl e
     | Inr fftOutput \<Rightarrow>
        (case I (masked_of sr this fftOutput) of
           Inl e \<Rightarrow> Inl e
         | Inr ifftOutput \<Rightarrow>
            (case overlap_add (processed_of this ifftOutput) (fftSize this)
                    (block, overlappedOutput this) of
               (output', overlapped) \<Rightarrow>
                 Inr (this\<lparr>processedOutput := processed_of this ifftOutput,
                           overlappedOutput := overlapped\<rparr>,
                      (output' # chans) # outs))))"
  using assms
  by (simp add: process_with_def Let_def fftInput_of_def masked_of_def processed_of_def
      del: latch_fields split: sum.splits)

lemma masked_of_length [simp]: "length (masked_of sr this X) = length X"
  by (simp add: masked_of_def for_upto_def for_range_update_length)

lemma fftInput_of_length [simp]: "length (fftInput_of this input) = fftSize this"
  by (simp add: fftInput_of_def)

lemma dft_length [simp]: "length (dft x) = length x"
  by (simp add: dft_def)
lemma idft_length [simp]: "length (idft x) = length x"
  by (simp add: idft_def)

lemma process_pipeline:
  assumes "inputs \<noteq> []" "hd inputs \<noteq> []" "outputs = (block # chans) # outs"
    "gain (latch this0 params) \<noteq> 0" "fftSize this0 = 2 ^ m"
  shows "process sr this0 inputs outputs params =
    (let this = latch this0 params;
         ifftOutput = idft (masked_of sr this (dft (fftInput_of this (hd (hd inputs)))));
         processed = processed_of this ifftOutput
     in case overlap_add processed (fftSize this) (block, overlappedOutput this) of
               (output', overlapped) \<Rightarrow>
                 Inr (this\<lparr>processedOutput := processed, overlappedOutput := overlapped\<rparr>,
                      (output' # chans) # outs))"
proof -
  let ?t = "latch this0 params"
  have N: "fftSize ?t = 2 ^ m" using assms(5) by simp
  have f: "fft (fftInput_of ?t (hd (hd inputs))) = Inr (dft (fftInput_of ?t (hd (hd inputs))))"
    by (rule fft_dft [where m = m]) (simp add: assms(5))
  have i: "ifft (masked_of sr ?t (dft (fftInput_of ?t (hd (hd inputs)))))
      = Inr (idft (masked_of sr ?t (dft (fftInput_of ?t (hd (hd inputs))))))"
    by (rule ifft_idft [where m = m]) (simp add: assms(5))
  show ?thesis
    by (simp add: process_def process_with_pipeline [OF assms(1-4)] Let_def f i
        del: latch_fields)
qed

lemma constructor_simps [simp]:
  "fftSize constructor = 2048" "overlappedOutput constructor = replicate 2048 0"
  "processedOutput constructor = replicate 2048 0" "gain constructor = 0"
  by (simp_all add: constructor_def constructor_with_def)

lemma well_formed_constructor: "well_formed constructor"
  by (simp add: well_formed_def constructor_def constructor_with_def for_upto_def
      for_range_update_length)

lemma well_formed_latch [simp]: "well_formed (latch this params) = well_formed this"
  by (simp add: well_formed_def)

lemma well_formed_process:
  assumes "well_formed this"
    and "process sampleRate this inputs outputs params = Inr (this', outputs')"
  shows "well_formed this' \<and> fftSize this' = fftSize this"
  using assms
  by (auto simp: process_def process_with_def Let_def well_formed_def
      for_upto_def for_range_update_length overlap_add_eq
      split: if_splits list.splits sum.splits prod.splits)

subsection \<open>fft after ifft\<close>



subsection \<open>Evaluations in the FFT module\<close>

lemma Math_round_eq: "real_of_int z \<le> x + 1 / 2 \<Longrightarrow> x + 1 / 2 < real_of_int z + 1 \<Longrightarrow> Math_round x = z"
  unfolding Math_round_def by (rule floor_unique)

lemma ftt_mask_example:
  "ftt_createPlateauFilterMask [0, 11025, 22050, - 11025] 10000 5000 2000 = Inr [0, 1, 0, 1]"
proof -
  have "Math_round (5000 / 11025) = 0" "Math_round (10000 / 11025) = 1"
    "Math_round (15000 / 11025) = 1"
    by (rule Math_round_eq; simp)+
  then show ?thesis
    by (simp add: ftt_createPlateauFilterMask_def Let_def is_index_def for_upto_def
        for_range_def upt_rec [of 0] upt_rec [of 1] upt_rec [of 2] upt_rec [of 3]
        upt_rec [of 4])
qed

lemma paddedLength_of_4: "paddedLength_of 4 = 4"
proof -
  have "log 2 4 = 2" using log_nat_power [of 2 2 2] by simp
  then show ?thesis by (simp add: paddedLength_of_def)
qed

lemma createFrequencyArray_4: "createFrequencyArray 4 8000 = [0, 2000, 4000, - 2000]"
proof -
  have "[0..<3::nat] = [0, 1, 2]" "[3..<4::nat] = [3]" by code_simp+
  moreover have "replicate 4 (0::real) = [0, 0, 0, 0]" by (simp add: numeral_eq_Suc)
  moreover have "[0, 0, 0, 0::real][2 := 4000] = [0, 0, 4000, 0]"
    "[0, 2000, 4000, 0::real][3 := - 2000] = [0, 2000, 4000, - 2000]"
    by (simp_all add: numeral_eq_Suc)
  ultimately show ?thesis
    by (simp add: createFrequencyArray_def Let_def for_range_def)
qed

subsection \<open>Silence, and sums with two terms\<close>

lemma Complex_of_real: "Complex a 0 = of_real a"
  by (simp add: complex_eq_iff)

lemma sum_two_points:
  assumes "a < (N::nat)" "b < N" "a \<noteq> b"
  shows "(\<Sum>k<N. if k = a \<or> k = b then f k else (0::complex)) = f a + f b"
proof -
  have "(\<Sum>k<N. if k = a \<or> k = b then f k else 0)
      = (\<Sum>k<N. (if k = a then f k else 0) + (if k = b then f k else 0))"
    using assms(3) by (intro sum.cong) auto
  also have "\<dots> = f a + f b"
    using assms(1,2) by (simp add: sum.distrib sum.delta)
  finally show ?thesis .
qed

lemma dft_sum_zero: "dft_sum s (replicate n 0) k = 0"
  by (simp add: dft_sum_def)

lemma dft_zero: "dft (replicate n 0) = replicate n 0"
  by (rule nth_equalityI) (simp_all add: dft_def dft_sum_zero)

lemma idft_zero: "idft (replicate n 0) = replicate n 0"
  by (rule nth_equalityI) (simp_all add: idft_def dft_sum_zero)

lemma fftInput_of_silence: "fftInput_of this (replicate b 0) = replicate (fftSize this) 0"
  by (rule nth_equalityI)
     (simp_all add: fftInput_of_def for_upto_def for_range_const_nth Complex_of_real)

lemma masked_of_zero:
  "masked_of sr this (replicate (fftSize this) 0) = replicate (fftSize this) 0"
proof (rule nth_equalityI)
  show "length (masked_of sr this (replicate (fftSize this) 0)) = length (replicate (fftSize this) (0::complex))"
    by simp
next
  fix k assume "k < length (masked_of sr this (replicate (fftSize this) 0))"
  then have k: "k < fftSize this" by simp
  then show "masked_of sr this (replicate (fftSize this) 0) ! k = replicate (fftSize this) 0 ! k"
    using for_range_update_nth [where xs = "replicate (fftSize this) (0::complex)" and j = k
        and a = 0 and b = "fftSize this"
        and h = "\<lambda>i v. scale v (createPlateauFilterMask sr (centerFreq this) (width this)
                  (flatWidth this) (fftSize this) ! i * gain this)"]
    by (simp add: masked_of_def for_upto_def scale_eq)
qed

lemma processed_of_zero:
  assumes "length (processedOutput this) = fftSize this"
  shows "processed_of this (replicate (fftSize this) 0) = replicate (fftSize this) 0"
  using assms
  by (intro nth_equalityI)
     (simp_all add: processed_of_def for_upto_def for_range_update_length for_range_const_nth)

lemma processed_of_length [simp]: "length (processed_of this y) = length (processedOutput this)"
  by (simp add: processed_of_def for_upto_def for_range_update_length)

subsection \<open>The fallback callback\<close>

lemma applyWindow_length [simp]: "length (applyWindow buffer) = length buffer"
  by (simp add: applyWindow_def Let_def for_upto_def for_range_update_length)

lemma applyWindow_nth:
  "j < length buffer \<Longrightarrow>
   applyWindow buffer ! j
     = buffer ! j * (0.5 * (1 - cos (2 * pi * real j / (real (length buffer) - 1))))"
  using for_range_update_nth [where xs = buffer and j = j and a = 0 and b = "length buffer"
      and h = "\<lambda>i v. v * (0.5 * (1 - cos (2 * pi * real i / (real (length buffer) - 1))))"]
  by (simp add: applyWindow_def Let_def for_upto_def)

lemma applyFilter_length [simp]: "length (applyFilter this spectrum) = length spectrum"
  by (simp add: applyFilter_def Let_def for_upto_def for_range_update_length)

lemma applyFilter_nth:
  "j < length spectrum \<Longrightarrow>
   applyFilter this spectrum ! j
     = spectrum ! j
       * calculateMask this (real j * (context_sampleRate this / 2) / real (length spectrum))"
  using for_range_update_nth [where xs = spectrum and j = j and a = 0 and b = "length spectrum"
      and h = "\<lambda>i v. v * calculateMask this
                 (real i * (context_sampleRate this / 2) / real (length spectrum))"]
  by (simp add: applyFilter_def Let_def for_upto_def)

lemma processAudio_nth:
  assumes "j < length inputData" "j < length outputData"
  shows "processAudio this inputData outputData ! j
     = inputData ! j
       * (0.5 * (1 - cos (2 * pi * real j / (real (length inputData) - 1))))
       * calculateMask this (real j * (context_sampleRate this / 2) / real (length inputData))
       * gain this"
proof -
  let ?temp = "for_upto (length inputData) (\<lambda>i tempBuffer. tempBuffer[i := inputData ! i])
                 (replicate (length inputData) 0)"
  have len: "length ?temp = length inputData"
    by (simp add: for_upto_def for_range_update_length)
  have t: "?temp ! j = inputData ! j"
    using assms(1) by (simp add: for_upto_def for_range_const_nth)
  show ?thesis
    using assms
    by (simp add: processAudio_def Let_def calculateFFT_def calculateIFFT_def
          for_range_const_nth applyFilter_nth applyWindow_nth len t
          for_upto_def [of _ _ outputData])
qed

subsection \<open>The normalisation loop of applyFFTFilter\<close>

lemma amplitude_loop:
  assumes "k \<le> length (r0 :: real list)"
  shows "\<exists>M::real. for_range 0 k
           (\<lambda>i (result, maxAmp).
              let result = result[i := g i] in (result, max maxAmp \<bar>result ! i\<bar>))
           (r0, m0)
         = (for_range 0 k (\<lambda>i s. s[i := g i]) r0, M) \<and> m0 \<le> M \<and> (\<forall>i<k. \<bar>g i\<bar> \<le> M)"
  using assms
proof (induction k)
  case 0 show ?case by (simp add: for_range_empty)
next
  case (Suc k)
  then obtain M where
    M: "for_range 0 k
           (\<lambda>i (result, maxAmp).
              let result = result[i := g i] in (result, max maxAmp \<bar>result ! i\<bar>))
           (r0, m0)
         = (for_range 0 k (\<lambda>i s. s[i := g i]) r0, M)" "m0 \<le> M" "\<forall>i<k. \<bar>g i\<bar> \<le> M"
    by auto
  have "k < length (for_range 0 k (\<lambda>i s. s[i := g i]) r0)"
    using Suc.prems by (simp add: for_range_update_length)
  then have "for_range 0 (Suc k)
           (\<lambda>i (result, maxAmp).
              let result = result[i := g i] in (result, max maxAmp \<bar>result ! i\<bar>))
           (r0, m0)
         = (for_range 0 (Suc k) (\<lambda>i s. s[i := g i]) r0, max M \<bar>g k\<bar>)"
    by (simp add: for_range_Suc M(1) [unfolded Let_def] Let_def)
  moreover have "m0 \<le> max M \<bar>g k\<bar>" using M(2) by simp
  moreover have "\<forall>i<Suc k. \<bar>g i\<bar> \<le> max M \<bar>g k\<bar>"
    using M(3) by (auto simp: less_Suc_eq le_max_iff_disj)
  ultimately show ?case by blast
qed

lemma applyFFTFilter_Inr:
  assumes "applyFFTFilter samples sampleRate targetFreq w delta = Inr result"
  shows "length result = length samples \<and> (\<forall>i<length samples. \<bar>result ! i\<bar> \<le> 1)"
proof -
  let ?n = "length samples"
  from assms obtain y r1 M' where
    l: "for_upto ?n
          (\<lambda>i (result, maxAmp).
             let result = result[i := Re (y ! i)]
             in (result, max maxAmp \<bar>result ! i\<bar>))
          (replicate ?n 0, 0) = (r1, M')"
    and r: "result = (if M' > 0
                      then for_upto ?n (\<lambda>i result. result[i := result ! i / M']) r1
                      else r1)"
    by (auto simp: applyFFTFilter_def Let_def split: sum.splits prod.splits)
  let ?g = "\<lambda>i. Re (y ! i)"
  let ?r = "for_range 0 ?n (\<lambda>i s. s[i := ?g i]) (replicate ?n 0)"
  from amplitude_loop [of ?n "replicate ?n 0" ?g 0] obtain M where
    M: "for_range 0 ?n
           (\<lambda>i (result, maxAmp).
              let result = result[i := ?g i] in (result, max maxAmp \<bar>result ! i\<bar>))
           (replicate ?n 0, 0) = (?r, M)" "0 \<le> M" "\<forall>i<?n. \<bar>?g i\<bar> \<le> M"
    by auto
  have rn: "?r ! i = ?g i" if "i < ?n" for i
    using that by (simp add: for_range_const_nth)
  have lr: "length ?r = ?n" by (simp add: for_range_update_length)
  show ?thesis
  proof (cases "M > 0")
    case True
    with r l M(1) have res: "result = for_range 0 ?n (\<lambda>i result. result[i := result ! i / M]) ?r"
      by (simp add: for_upto_def Let_def)
    have "\<bar>result ! i\<bar> \<le> 1" if "i < ?n" for i
    proof -
      have "result ! i = ?g i / M"
        using that for_range_update_nth [where xs = ?r and j = i and a = 0 and b = ?n
            and h = "\<lambda>i v. v / M"]
        by (simp add: res lr rn)
      moreover have "\<bar>?g i\<bar> \<le> M" using M(3) that by simp
      ultimately show ?thesis using True by (simp add: abs_divide)
    qed
    moreover have "length result = ?n" by (simp add: res for_range_update_length)
    ultimately show ?thesis by simp
  next
    case False
    with r l M(1) have res: "result = ?r" by (simp add: for_upto_def Let_def)
    from False M(2,3) have "\<forall>i<?n. ?g i = 0" by auto
    then show ?thesis by (simp add: res lr rn)
  qed
qed

subsection \<open>The test scenario\<close>

lemma hanningWindow_constructor:
  "i < 2048 \<Longrightarrow> hanningWindow constructor ! i = hanning i"
  by (simp add: constructor_def constructor_with_def for_upto_def for_range_const_nth hanning_def)

lemma hanning_nonzero:
  assumes "0 < i" "i < 2047"
  shows "hanning i \<noteq> 0"
proof
  assume "hanning i = 0"
  then have "cos (2 * pi * real i / 2047) = 1" by (simp add: hanning_def)
  then obtain n :: int where n: "2 * pi * real i / 2047 = of_int n * 2 * pi"
    using cos_one_2pi_int by blast
  then have "real i = of_int (n * 2047)" by (simp add: field_simps)
  then have "int i = n * 2047" by (metis of_int_eq_iff of_int_of_nat_eq)
  with assms show False by (cases "n \<le> 0") auto
qed

lemma narrow_mask:
  assumes "k < 2048"
  shows "createPlateauFilterMask 44100 11025 2 1 2048 ! k = (if k = 512 \<or> k = 1536 then 1 else 0)"
proof -
  consider "k = 0" | "0 < k" "k \<le> 511" | "k = 512" | "513 \<le> k" "k \<le> 1024"
    | "1025 \<le> k" "k \<le> 1535" | "k = 1536" | "1537 \<le> k"
    by linarith
  then show ?thesis
  proof cases
    case 1 then show ?thesis by (simp add: createPlateauFilterMask_nth)
  next
    case 2
    then have "real k \<le> 511" "0 < real k" by simp_all
    with 2 assms show ?thesis by (simp add: createPlateauFilterMask_nth Let_def) 
  next
    case 3 then show ?thesis by (simp add: createPlateauFilterMask_nth Let_def)
  next
    case 4
    then have "513 \<le> real k" "real k \<le> 1024" by simp_all
    with 4 assms show ?thesis by (simp add: createPlateauFilterMask_nth Let_def)
  next
    case 5
    then have "1025 \<le> real k" "real k \<le> 1535" by simp_all
    with 5 assms show ?thesis by (simp add: createPlateauFilterMask_nth Let_def)
  next
    case 6 then show ?thesis by (simp add: createPlateauFilterMask_nth Let_def)
  next
    case 7
    with assms have "1537 \<le> real k" "real k < 2048" by simp_all
    with 7 assms show ?thesis by (simp add: createPlateauFilterMask_nth Let_def)
  qed
qed

lemma impulse_block_nth: "j < 128 \<Longrightarrow> impulse_block ! j = (if j = 64 then 1 else 0)"
  by (simp add: impulse_block_def nth_list_update)

lemma impulse_block_length [simp]: "length impulse_block = 128"
  by (simp add: impulse_block_def)

lemma impulse_fftInput:
  assumes "j < 2048"
  shows "fftInput_of (latch constructor narrow_params) impulse_block ! j
     = (if j = 64 then of_real (hanning 64) else 0)"
proof -
  have "for_upto 128 (\<lambda>i inputBuffer. inputBuffer[i := impulse_block ! i * hanningWindow constructor ! i])
          (replicate 2048 0) ! j = (if j = 64 then hanning 64 else 0)"
    using assms
    by (simp add: for_upto_def for_range_const_nth impulse_block_nth hanningWindow_constructor)
  with assms show ?thesis
    by (simp add: fftInput_of_def Complex_of_real)
qed

lemma impulse_dft:
  assumes "k < 2048"
  shows "dft (fftInput_of (latch constructor narrow_params) impulse_block) ! k
     = of_real (hanning 64) * twiddle (- 1) 2048 (64 * k)"
proof -
  let ?x = "fftInput_of (latch constructor narrow_params) impulse_block"
  have "dft_sum (- 1) ?x k
      = (\<Sum>j<(2048::nat). (if j = 64 then of_real (hanning 64) else 0) * twiddle (- 1) 2048 (j * k))"
    by (simp add: dft_sum_def impulse_fftInput)
  also have "\<dots> = (\<Sum>j<(2048::nat). if j = 64 then of_real (hanning 64) * twiddle (- 1) 2048 (64 * k) else 0)"
    by (rule sum.cong) simp_all
  also have "\<dots> = of_real (hanning 64) * twiddle (- 1) 2048 (64 * k)"
    by (simp add: sum.delta)
  finally show ?thesis using assms by (simp add: dft_def)
qed

lemma narrow_masked:
  assumes "length X = 2048" "k < 2048"
  shows "masked_of 44100 (latch constructor narrow_params) X ! k
     = (if k = 512 \<or> k = 1536 then X ! k else 0)"
proof -
  have "masked_of 44100 (latch constructor narrow_params) X ! k
      = scale (X ! k) (createPlateauFilterMask 44100 11025 2 1 2048 ! k * 1)"
    using assms
      for_range_update_nth [where xs = X and j = k and a = 0 and b = 2048
        and h = "\<lambda>i v. scale v (createPlateauFilterMask 44100 11025 2 1 2048 ! i * 1)"]
    by (simp add: masked_of_def for_upto_def narrow_params_def)
  then show ?thesis using assms(2) by (simp add: narrow_mask scale_eq)
qed

lemma twiddle_whole:
  "twiddle (- 1) 2048 (64 * 512) = 1" "twiddle (- 1) 2048 (64 * 1536) = 1"
  "twiddle 1 2048 (512 * (4 * q)) = 1" "twiddle 1 2048 (1536 * (4 * q)) = 1"
proof -
  have "(64::nat) * 512 = 2048 * 16" "(64::nat) * 1536 = 2048 * 48"
    "512 * (4 * q) = 2048 * q" "1536 * (4 * q) = 2048 * (3 * q)"
    by simp_all
  then show "twiddle (- 1) 2048 (64 * 512) = 1" "twiddle (- 1) 2048 (64 * 1536) = 1"
    "twiddle 1 2048 (512 * (4 * q)) = 1" "twiddle 1 2048 (1536 * (4 * q)) = 1"
    by (simp_all only: twiddle_period [of 2048, simplified])
qed

lemma impulse_idft:
  assumes "4 * q < 2048"
  shows "idft (masked_of 44100 (latch constructor narrow_params)
           (dft (fftInput_of (latch constructor narrow_params) impulse_block))) ! (4 * q)
     = of_real (hanning 64 / 1024)"
proof -
  let ?t = "latch constructor narrow_params"
  let ?X = "dft (fftInput_of ?t impulse_block)"
  let ?Y = "masked_of 44100 ?t ?X"
  let ?n = "4 * q"
  let ?c = "complex_of_real (hanning 64)"
  have len: "length ?X = 2048" by simp
  have Y: "?Y ! k = (if k = 512 \<or> k = 1536 then ?c * twiddle (- 1) 2048 (64 * k) else 0)"
    if "k < 2048" for k
    using that by (simp add: narrow_masked [OF len] impulse_dft)
  have "dft_sum 1 ?Y ?n
      = (\<Sum>k<(2048::nat). if k = 512 \<or> k = 1536
           then ?c * twiddle (- 1) 2048 (64 * k) * twiddle 1 2048 (k * ?n) else 0)"
    unfolding dft_sum_def by (rule sum.cong) (simp_all add: Y)
  also have "\<dots> = ?c * twiddle (- 1) 2048 (64 * 512) * twiddle 1 2048 (512 * ?n)
      + ?c * twiddle (- 1) 2048 (64 * 1536) * twiddle 1 2048 (1536 * ?n)"
    by (rule sum_two_points) simp_all
  also have "\<dots> = ?c * 2"
    by (simp only: twiddle_whole) simp
  finally have "dft_sum 1 ?Y ?n = ?c * 2" .
  with assms show ?thesis by (simp add: idft_def)
qed

lemma impulse_processed:
  assumes "4 * q < 2048"
  shows "processed_of (latch constructor narrow_params)
           (idft (masked_of 44100 (latch constructor narrow_params)
              (dft (fftInput_of (latch constructor narrow_params) impulse_block)))) ! (4 * q)
     = hanning 64 * hanning (4 * q) / 1024"
proof -
  let ?y = "idft (masked_of 44100 (latch constructor narrow_params)
              (dft (fftInput_of (latch constructor narrow_params) impulse_block)))"
  have "processed_of (latch constructor narrow_params) ?y ! (4 * q)
      = Re (?y ! (4 * q)) * hanningWindow constructor ! (4 * q)"
    using assms by (simp add: processed_of_def for_upto_def for_range_const_nth)
  also have "\<dots> = Re (of_real (hanning 64 / 1024)) * hanning (4 * q)"
    by (simp only: impulse_idft [OF assms] hanningWindow_constructor [OF assms])
  finally show ?thesis by simp
qed

lemma impulse_run:
  "process 44100 constructor [[impulse_block]] [[replicate 128 0]] narrow_params
     = Inr (impulse_state, [[impulse_output]])"
  "fftSize impulse_state = 2048"
  "processedOutput impulse_state =
     processed_of (latch constructor narrow_params)
       (idft (masked_of 44100 (latch constructor narrow_params)
          (dft (fftInput_of (latch constructor narrow_params) impulse_block))))"
  "overlap_add (processedOutput impulse_state) 2048 (replicate 128 0, replicate 2048 0)
     = (impulse_output, overlappedOutput impulse_state)"
proof -
  let ?t = "latch constructor narrow_params"
  let ?p = "processed_of ?t (idft (masked_of 44100 ?t (dft (fftInput_of ?t impulse_block))))"
  obtain output' overlapped where
    oa: "overlap_add ?p 2048 (replicate 128 0, replicate 2048 0) = (output', overlapped)"
    by (cases "overlap_add ?p 2048 (replicate 128 0, replicate 2048 0)")
  have r: "process 44100 constructor [[impulse_block]] [[replicate 128 0]] narrow_params
      = Inr (?t\<lparr>processedOutput := ?p, overlappedOutput := overlapped\<rparr>, [[output']])"
    using oa
    by (simp add: process_pipeline [where m = 11 and block = "replicate 128 0" and chans = "[]"
          and outs = "[]"] Let_def narrow_params_def)
  then have s: "impulse_state = ?t\<lparr>processedOutput := ?p, overlappedOutput := overlapped\<rparr>"
    and o: "impulse_output = output'"
    by (simp_all add: impulse_state_def impulse_output_def)
  show "process 44100 constructor [[impulse_block]] [[replicate 128 0]] narrow_params
     = Inr (impulse_state, [[impulse_output]])" by (simp only: r s o)
  show "fftSize impulse_state = 2048" by (simp add: s)
  show p: "processedOutput impulse_state = ?p" by (simp add: s)
  show "overlap_add (processedOutput impulse_state) 2048 (replicate 128 0, replicate 2048 0)
     = (impulse_output, overlappedOutput impulse_state)"
    unfolding p oa by (simp add: s o)
qed

lemma impulse_processed_nonzero:
  assumes "0 < q" "4 * q < 2047"
  shows "processedOutput impulse_state ! (4 * q) = hanning 64 * hanning (4 * q) / 1024"
    and "processedOutput impulse_state ! (4 * q) \<noteq> 0"
proof -
  from assms have "4 * q < 2048" by simp
  then show v: "processedOutput impulse_state ! (4 * q) = hanning 64 * hanning (4 * q) / 1024"
    by (simp only: impulse_run(3) impulse_processed)
  have "hanning 64 \<noteq> 0" "hanning (4 * q) \<noteq> 0"
    using assms hanning_nonzero [of 64] hanning_nonzero [of "4 * q"] by simp_all
  then show "processedOutput impulse_state ! (4 * q) \<noteq> 0"
    unfolding v by simp
qed

lemma impulse_state_lengths [simp]:
  "length (processedOutput impulse_state) = 2048"
  "length (overlappedOutput impulse_state) = 2048"
  using overlap_add_props(2) [OF impulse_run(4)] by (simp_all add: impulse_run(3))

lemma well_formed_impulse_state: "well_formed impulse_state"
  using well_formed_process [OF well_formed_constructor impulse_run(1)] by simp

lemma impulse_overlap_124:
  "overlappedOutput impulse_state ! 124 = hanning 64 * hanning 252 / 1024"
  "overlappedOutput impulse_state ! 124 \<noteq> 0"
proof -
  have "overlappedOutput impulse_state ! 124 = processedOutput impulse_state ! (4 * 63)"
    using overlap_add_props(4) [OF impulse_run(4), of 124] by simp
  with impulse_processed_nonzero [of 63]
  show "overlappedOutput impulse_state ! 124 = hanning 64 * hanning 252 / 1024"
    "overlappedOutput impulse_state ! 124 \<noteq> 0" by simp_all
qed

lemma hanning_bounds: "0 \<le> hanning i" "hanning i \<le> 1"
  using cos_le_one [of "2 * pi * real i / 2047"] cos_ge_minus_one [of "2 * pi * real i / 2047"]
  by (simp_all add: hanning_def)

lemma fallback_window_64: "1 / 2 \<le> 0.5 * (1 - cos (2 * pi * real 64 / (real 128 - 1)))"
proof -
  have e: "2 * pi * real 64 / (real 128 - 1) = pi + pi / 127" by (simp add: field_simps)
  have c: "cos (2 * pi * real 64 / (real 128 - 1)) = - cos (pi / 127)"
    by (simp only: e cos_periodic_pi2)
  have "0 < cos (pi / 127)" by (rule cos_gt_zero_pi) (simp_all add: field_simps)
  then show ?thesis unfolding c by simp
qed

lemma mask_far:
  assumes "i < n" and "f \<le> w"
    and "w / 2 \<le> \<bar>\<bar>if real i \<le> real n / 2 then real i * sr / real n
                      else (real i - real n) * sr / real n\<bar> - c\<bar>"
  shows "createPlateauFilterMask sr c w f n ! i = 0"
  using assms by (simp add: createPlateauFilterMask_nth Let_def)

lemma halfbin_mask:
  assumes "k < 2048"
  shows "createPlateauFilterMask 44100 (1400175 / 1024) 2 1 2048 ! k = 0"
proof (rule mask_far [OF assms])
  show "(1::real) \<le> 2" by simp
next
  consider "k \<le> 63" | "64 \<le> k" "k \<le> 1024" | "1025 \<le> k" "k \<le> 1984" | "1985 \<le> k"
    by linarith
  then show "2 / 2 \<le> \<bar>\<bar>if real k \<le> real 2048 / 2 then real k * 44100 / real 2048
                      else (real k - real 2048) * 44100 / real 2048\<bar> - 1400175 / 1024\<bar>"
  proof cases
    case 1
    then have "real k \<le> 63" by simp
    then show ?thesis by simp
  next
    case 2
    then have "64 \<le> real k" "real k \<le> 1024" by simp_all
    then show ?thesis by simp
  next
    case 3
    then have "1025 \<le> real k" "real k * 44100 \<le> 1984 * 44100" by simp_all
    then show ?thesis by (simp add: field_simps)
  next
    case 4
    with assms have "1985 * 44100 \<le> real k * 44100" "real k < 2048" by simp_all
    then show ?thesis by (simp add: field_simps)
  qed
qed

lemma halfbin_masked:
  assumes "length X = 2048"
  shows "masked_of 44100 (latch constructor halfbin_params) X = replicate 2048 0"
proof (rule nth_equalityI)
  show "length (masked_of 44100 (latch constructor halfbin_params) X) = length (replicate 2048 (0::complex))"
    using assms by simp
next
  fix k assume "k < length (masked_of 44100 (latch constructor halfbin_params) X)"
  then have k: "k < 2048" using assms by simp
  have "masked_of 44100 (latch constructor halfbin_params) X ! k
      = scale (X ! k) (createPlateauFilterMask 44100 (1400175 / 1024) 2 1 2048 ! k * 1)"
    using assms k
      for_range_update_nth [where xs = X and j = k and a = 0 and b = 2048
        and h = "\<lambda>i v. scale v (createPlateauFilterMask 44100 (1400175 / 1024) 2 1 2048 ! i * 1)"]
    by (simp add: masked_of_def for_upto_def halfbin_params_def)
  then show "masked_of 44100 (latch constructor halfbin_params) X ! k = replicate 2048 0 ! k"
    using k by (simp add: halfbin_mask scale_eq)
qed

lemma overlap_add_zero:
  assumes "b \<le> n"
  shows "fst (overlap_add (replicate n 0) n (replicate b 0, replicate n 0)) = replicate b 0"
  using assms
  by (intro nth_equalityI)
     (simp_all add: overlap_add_eq for_range_update_length for_range_const_nth)

lemma halfbin_run:
  "\<exists>this'. process 44100 constructor [[late_impulse 128]] [[replicate 128 0]] halfbin_params
     = Inr (this', [[replicate 128 0]])"
proof -
  let ?t = "latch constructor halfbin_params"
  have p: "processed_of ?t (idft (masked_of 44100 ?t (dft (fftInput_of ?t (late_impulse 128)))))
      = replicate 2048 0"
    using processed_of_zero [of ?t] by (simp add: halfbin_masked idft_zero)
  obtain output' overlapped where
    oa: "overlap_add (replicate 2048 0) 2048 (replicate 128 0, replicate 2048 0) = (output', overlapped)"
    by (cases "overlap_add (replicate 2048 (0::real)) 2048 (replicate 128 0, replicate 2048 0)")
  with overlap_add_zero [of 128 2048] have "output' = replicate 128 0" by simp
  with oa show ?thesis
    by (simp add: process_pipeline [where m = 11 and block = "replicate 128 0" and chans = "[]"
          and outs = "[]"] Let_def halfbin_params_def p [simplified halfbin_params_def])
qed

lemma halfbin_fallback:
  "processAudio halfbin_filter (late_impulse 2048) (replicate 2048 0) ! 127 = hanning 127"
  by (simp add: processAudio_nth late_impulse_def halfbin_filter_def calculateMask_def hanning_def)

subsection \<open>Rounding to double precision\<close>

lemma pow2_powr: "pow2 e = 2 powr (of_int e)"
proof (cases "0 \<le> e")
  case True
  then have "2 powr (of_int e) = (2::real) powr (real (nat e))" by simp
  also have "\<dots> = 2 ^ nat e" by (rule powr_realpow) simp
  finally show ?thesis using True by (simp add: pow2_def)
next
  case False
  then have "2 powr (of_int e) = (2::real) powr (- real (nat (- e)))" by simp
  also have "\<dots> = 1 / 2 powr (real (nat (- e)))" by (simp add: powr_minus_divide)
  also have "2 powr (real (nat (- e))) = (2::real) ^ nat (- e)" by (rule powr_realpow) simp
  finally show ?thesis using False by (simp add: pow2_def)
qed

lemma pow2_pos [simp]: "0 < pow2 e"
  by (simp add: pow2_powr)

lemma pow2_add: "pow2 (a + b) = pow2 a * pow2 b"
  by (simp add: pow2_powr powr_add)


lemma pow2_mono: "a \<le> b \<Longrightarrow> pow2 a \<le> pow2 b"
  by (simp add: pow2_powr)

lemma pow2_less_iff: "pow2 a < pow2 b \<longleftrightarrow> a < b"
  by (simp add: pow2_powr)

lemma pow2_nat: "pow2 (int n) = 2 ^ n"
  by (simp add: pow2_def)


lemma pow2_abs [simp]: "\<bar>pow2 e\<bar> = pow2 e"
  by (simp add: abs_of_pos)

lemma expo_finite: "finite (insert (- 1022) {e \<in> {- 1022 .. 1023}. pow2 e \<le> \<bar>x\<bar>})"
  by (intro finite.insertI finite_subset [OF _ finite_atLeastAtMost_int [of "- 1022" 1023]]) auto


lemma round_even_of_int [simp]: "round_even (of_int n) = n"
  by (simp add: round_even_def)


lemma expo_cases: "expo x = - 1022 \<or> pow2 (expo x) \<le> \<bar>x\<bar>"
proof -
  let ?S = "insert (- 1022) {e \<in> {- 1022 .. 1023}. pow2 e \<le> \<bar>x\<bar>}"
  have f: "finite ?S" by (rule expo_finite)
  have "Max ?S \<in> ?S" by (rule Max_in [OF f]) simp
  then show ?thesis by (auto simp: expo_def)
qed



text \<open>A multiple of a power of two with at most 53 significant bits is a double.\<close>

lemma fl_exact:
  assumes "x = of_int m * pow2 e" "\<bar>m\<bar> < 2 ^ 53" "- 1074 \<le> e" "\<bar>x\<bar> < pow2 1024"
  shows "fl x = Some x"
proof -
  have ex: "expo x - 52 \<le> e"
  proof (rule ccontr)
    assume "\<not> expo x - 52 \<le> e"
    then have gt: "e + 53 \<le> expo x" by simp
    with assms(3) have "expo x \<noteq> - 1022" by simp
    with expo_cases [of x] have "pow2 (expo x) \<le> \<bar>x\<bar>" by simp
    moreover have "\<bar>x\<bar> < 2 ^ 53 * pow2 e"
    proof -
      have "\<bar>x\<bar> = real_of_int \<bar>m\<bar> * pow2 e" by (simp add: assms(1) abs_mult)
      also have "\<dots> < real_of_int (2 ^ 53) * pow2 e"
        using assms(2) by (intro mult_strict_right_mono) (simp_all del: of_int_power of_int_numeral)
      finally show ?thesis by simp
    qed
    moreover have "2 ^ 53 * pow2 e = pow2 (e + 53)"
      using pow2_nat [of 53] by (simp add: pow2_add)
    ultimately have "pow2 (expo x) < pow2 (e + 53)" by simp
    with gt show False by (simp add: pow2_less_iff)
  qed
  define q where "q = pow2 (expo x - 52)"
  define d where "d = nat (e - (expo x - 52))"
  have q: "0 < q" by (simp add: q_def)
  have "pow2 e = pow2 (int d) * q" using ex by (simp add: q_def d_def pow2_add [symmetric])
  then have xq: "x = of_int (m * 2 ^ d) * q" by (simp add: assms(1) pow2_nat)
  then have "x / q = of_int (m * 2 ^ d)" using q by simp
  then have "of_int (round_even (x / q)) * q = x"
    using xq by (simp only: round_even_of_int)
  then show ?thesis using assms(4) by (simp add: fl_def Let_def q_def)
qed

lemma fl_0 [simp]: "fl 0 = Some 0"
  using fl_exact [of 0 0 0] by simp

lemma fl_int: "\<bar>m\<bar> < 2 ^ 53 \<Longrightarrow> fl (of_int m) = Some (of_int m)"
  using fl_exact [of "of_int m" m 0] by (simp add: pow2_def)


lemma fl_2 [simp]: "fl 2 = Some 2"
  using fl_int [of 2] by simp








subsection \<open>fft and ifft in double precision at length 2\<close>

lemma num_simps [simp]:
  "num_add (Some x) (Some y) = fl (x + y)"
  "num_sub (Some x) (Some y) = fl (x - y)"
  "num_mul (Some x) (Some y) = fl (x * y)"
  "y \<noteq> 0 \<Longrightarrow> num_div (Some x) y = fl (x / y)"
  by (simp_all add: num_add_def num_sub_def num_mul_def num_div_def)

lemma num_None [simp]:
  "num_add None b = None" "num_add a None = None"
  "num_sub None b = None" "num_sub a None = None"
  "num_mul None b = None" "num_mul a None = None"
  by (simp_all add: num_add_def num_sub_def num_mul_def split: option.splits)















section \<open>The claims\<close>

text \<open>
  C1 (amended). For a block processed by the worklet pipeline with an FFT size \<open>N\<close> that is
  a power of two and an output block of size \<open>B \<le> N\<close>, the call returns, and
  \<open>output[i] = processed[i] + overlapBuffer_old[i]\<close> for every \<open>i < B\<close>. The loop that
  refreshes the overlap buffer runs over the output block only: for \<open>i < B\<close> the new
  \<open>overlapBuffer[i]\<close> is \<open>processed[i + B]\<close> when \<open>i + B < N\<close> and 0 otherwise, and for
  \<open>i \<ge> B\<close> the overlap buffer keeps its old value.
\<close>

theorem C1_overlap_add:
  assumes "inputs \<noteq> []" and "hd inputs \<noteq> []"
    and "outputs = (block # chans) # outs"
    and "(case param_gain params of Some v \<Rightarrow> v | None \<Rightarrow> gain this) \<noteq> 0"
    and "fftSize this = 2 ^ m"
    and "length block \<le> fftSize this"
    and "well_formed this"
  shows "\<exists>this' output'.
     process sampleRate this inputs outputs params = Inr (this', (output' # chans) # outs) \<and>
     length output' = length block \<and>
     (\<forall>i<length block. output' ! i = processedOutput this' ! i + overlappedOutput this ! i) \<and>
     (\<forall>i<length block. overlappedOutput this' ! i =
        (if i + length block < fftSize this then processedOutput this' ! (i + length block)
         else 0)) \<and>
     (\<forall>i\<ge>length block. overlappedOutput this' ! i = overlappedOutput this ! i)"
proof -
  let ?t = "latch this params"
  let ?p = "processed_of ?t (idft (masked_of sampleRate ?t (dft (fftInput_of ?t (hd (hd inputs))))))"
  obtain output' overlapped where
    oa: "overlap_add ?p (fftSize this) (block, overlappedOutput this) = (output', overlapped)"
    by (cases "overlap_add ?p (fftSize this) (block, overlappedOutput this)")
  have "process sampleRate this inputs outputs params
      = Inr (?t\<lparr>processedOutput := ?p, overlappedOutput := overlapped\<rparr>, (output' # chans) # outs)"
    using assms(4,5) oa by (simp add: process_pipeline [OF assms(1-3), where m = m] Let_def)
  moreover note overlap_add_props [OF oa]
  ultimately show ?thesis using assms(6,7) by (auto simp: well_formed_def)
qed

text \<open>The theorem at the processor as constructed (FFT size 2048) and a block of 128
  samples.\<close>

theorem C1_overlap_add_witness:
  "\<exists>this' output'.
     process 44100 constructor [[replicate 128 1]] [[replicate 128 0]]
       \<lparr>param_centerFreq = Some 10000, param_width = Some 5000,
        param_flatWidth = Some 2000, param_gain = Some 1\<rparr> = Inr (this', [[output']]) \<and>
     length output' = 128 \<and>
     output' ! 5 = processedOutput this' ! 5 + overlappedOutput constructor ! 5 \<and>
     overlappedOutput this' ! 5 = processedOutput this' ! 133 \<and>
     overlappedOutput this' ! 200 = overlappedOutput constructor ! 200"
proof -
  from C1_overlap_add [where inputs = "[[replicate 128 1]]" and outputs = "[[replicate 128 0]]"
      and block = "replicate 128 0" and chans = "[]" and outs = "[]"
      and params = "\<lparr>param_centerFreq = Some 10000, param_width = Some 5000,
        param_flatWidth = Some 2000, param_gain = Some 1\<rparr>"
      and this = constructor and m = 11 and sampleRate = 44100]
    well_formed_constructor
  obtain this' output' where
    "process 44100 constructor [[replicate 128 1]] [[replicate 128 0]]
       \<lparr>param_centerFreq = Some 10000, param_width = Some 5000,
        param_flatWidth = Some 2000, param_gain = Some 1\<rparr> = Inr (this', [[output']])"
    "length output' = 128"
    "\<forall>i<128. output' ! i = processedOutput this' ! i + overlappedOutput constructor ! i"
    "\<forall>i<128. overlappedOutput this' ! i = processedOutput this' ! (i + 128)"
    "\<forall>i\<ge>128. overlappedOutput this' ! i = overlappedOutput constructor ! i"
    by auto
  then show ?thesis by (intro exI [of _ this'] exI [of _ output']) simp
qed

text \<open>
  C1 as stated fails where \<open>B < N - B\<close>. From the processor as constructed (\<open>N = 2048\<close>)
  and the block of the test scenario (\<open>B = 128\<close>), index 896 lies in \<open>[0, N - B)\<close>; the
  loop of lines 285 to 295 does not reach it, \<open>overlapBuffer[896]\<close> keeps its value 0, and
  \<open>processed[896 + B]\<close> is \<open>hanning 64 * hanning 1024 / 1024\<close>, which is not 0.
\<close>

theorem C1_counterexample:
  "process 44100 constructor [[impulse_block]] [[replicate 128 0]] narrow_params
     = Inr (impulse_state, [[impulse_output]]) \<and>
   (896::nat) < 2048 - 128 \<and>
   overlappedOutput impulse_state ! 896 = 0 \<and>
   processedOutput impulse_state ! (896 + 128) = hanning 64 * hanning 1024 / 1024 \<and>
   overlappedOutput impulse_state ! 896 \<noteq> processedOutput impulse_state ! (896 + 128)"
proof -
  have "overlappedOutput impulse_state ! 896 = replicate 2048 (0::real) ! 896"
    by (rule overlap_add_props(5) [OF impulse_run(4)]) simp
  moreover have "processedOutput impulse_state ! (4 * 256) = hanning 64 * hanning (4 * 256) / 1024"
    "processedOutput impulse_state ! (4 * 256) \<noteq> 0"
    by (rule impulse_processed_nonzero; simp)+
  ultimately show ?thesis using impulse_run(1) by simp
qed

text \<open>The loop alone, at \<open>N = 4\<close> and \<open>B = 1\<close>: \<open>overlapBuffer[1]\<close> keeps its value 0 and
  is not \<open>processed[2] = 3\<close>.\<close>

lemma overlap_add_small_example:
  "snd (overlap_add [1, 2, 3, 4] 4 ([0], [0, 0, 0, 0])) ! 1 \<noteq> [1, 2, 3, 4 :: real] ! (1 + 1)"
  by (simp add: overlap_add_def for_upto_def for_range_def)

text \<open>
  C2. The claim is that the worklet path and the fallback path compute the same output
  block for equal parameters. They do not. The fallback's \<^verbatim>\<open>_calculateFFT\<close> and
  \<^verbatim>\<open>_calculateIFFT\<close> return their argument, so \<^verbatim>\<open>_processAudio\<close> multiplies each windowed
  sample by a mask value and the gain (lemma \<open>processAudio_nth\<close>).

  On the block of the test scenario, with the same four parameters on both sides, sample
  64 of the worklet's output is \<open>(hanning 64)\<^sup>2 / 1024\<close>, at most \<open>1/1024\<close>, and sample 64 of
  the fallback's output is the window value \<open>(1 - cos (128 \<pi> / 127)) / 2\<close>, at least
  \<open>1/2\<close>.

  In the second scenario each path gets the block size it is set up with. The worklet's
  first output block is all zeros (no bin of its mask passes), and sample 127 of the
  fallback's output is \<open>hanning 127\<close>, which is not 0.
\<close>

theorem C2_paths_differ:
  "process 44100 constructor [[impulse_block]] [[replicate 128 0]] narrow_params
     = Inr (impulse_state, [[impulse_output]]) \<and>
   impulse_output ! 64 = hanning 64 * hanning 64 / 1024 \<and>
   impulse_output ! 64 \<le> 1 / 1024 \<and>
   processAudio fallback_filter impulse_block (replicate 128 0) ! 64
     = 0.5 * (1 - cos (2 * pi * real 64 / (real 128 - 1))) \<and>
   1 / 2 \<le> processAudio fallback_filter impulse_block (replicate 128 0) ! 64 \<and>
   impulse_output ! 64 \<noteq> processAudio fallback_filter impulse_block (replicate 128 0) ! 64 \<and>
   (\<exists>this'. process 44100 constructor [[late_impulse 128]] [[replicate 128 0]] halfbin_params
      = Inr (this', [[replicate 128 0]])) \<and>
   processAudio halfbin_filter (late_impulse 2048) (replicate 2048 0) ! 127 = hanning 127 \<and>
   hanning 127 \<noteq> 0"
proof -
  have "impulse_output ! 64 = processedOutput impulse_state ! (4 * 16) + replicate 2048 0 ! 64"
    using overlap_add_props(3) [OF impulse_run(4), of 64] by simp
  with impulse_processed_nonzero(1) [of 16]
  have w: "impulse_output ! 64 = hanning 64 * hanning 64 / 1024" by simp
  have "hanning 64 * hanning 64 \<le> 1 * 1"
    by (intro mult_mono hanning_bounds) simp
  with w have w': "impulse_output ! 64 \<le> 1 / 1024" by simp
  have f: "processAudio fallback_filter impulse_block (replicate 128 0) ! 64
      = 0.5 * (1 - cos (2 * pi * real 64 / (real 128 - 1)))"
    by (simp add: processAudio_nth impulse_block_nth fallback_filter_def calculateMask_def)
  have f': "1 / 2 \<le> processAudio fallback_filter impulse_block (replicate 128 0) ! 64"
    unfolding f by (rule fallback_window_64)
  from w' f' have "impulse_output ! 64 \<noteq> processAudio fallback_filter impulse_block (replicate 128 0) ! 64"
    by simp
  moreover have "hanning 127 \<noteq> 0" by (rule hanning_nonzero) simp_all
  ultimately show ?thesis
    using w w' f f' impulse_run(1) halfbin_run halfbin_fallback by (simp only: simp_thms)
qed




text \<open>
  C4. The mask of the worklet's generator has one entry per bin; entry 0 is 0, and entry
  \<open>i > 0\<close> is given by the folded frequency \<open>freq\<close> of the bin and
  \<open>absDiff = | |freq| - centerFreq |\<close>: 1 below \<open>flatWidth/2\<close>, the raised cosine below
  \<open>width/2\<close>, and 0 otherwise. This holds for every size and all parameter values.
\<close>

theorem C4_mask_formula:
  assumes "i < n"
  shows "length (createPlateauFilterMask sampleRate c w f n) = n \<and>
    createPlateauFilterMask sampleRate c w f n ! i =
    (if i = 0 then 0
     else let freq = (if real i \<le> real n / 2 then real i * sampleRate / real n
                      else (real i - real n) * sampleRate / real n);
              absDiff = \<bar>\<bar>freq\<bar> - c\<bar>
          in if absDiff < f / 2 then 1
             else if absDiff < w / 2
             then 0.5 * (1 + cos (pi * (absDiff - f / 2) / (w / 2 - f / 2)))
             else 0)"
  using createPlateauFilterMask_nth [OF assms] by simp

theorem C4_mask_formula_witness:
  "(1::nat) < 8 \<and> createPlateauFilterMask 8000 1000 200 100 8 ! 1 = 1 \<and>
   createPlateauFilterMask 8000 1040 200 60 8 ! 1 = 0.5 * (1 + cos (pi * (40 - 30) / (100 - 30)))
   \<and> createPlateauFilterMask 8000 1000 200 100 8 ! 6 = 0"
  using C4_mask_formula [of 1 8 8000 1000 200 100]
    C4_mask_formula [of 1 8 8000 1040 200 60] C4_mask_formula [of 6 8 8000 1000 200 100]
  by (simp add: Let_def)

text \<open>
  C5. From a filter with \<open>width > flatWidth\<close>, each of the four setters of
  \<^verbatim>\<open>PlateauFilter\<close> gives a filter with \<open>width > flatWidth\<close>. Setting the width to a value
  that is at most \<open>flatWidth\<close> gives \<open>width = flatWidth + 1\<close>; setting the flat width to a
  value that is at least \<open>width\<close> lowers it to \<open>width - 1\<close>, so that again
  \<open>width = flatWidth + 1\<close>. In the worklet every call of \<^verbatim>\<open>process\<close> clamps the width to at
  least \<open>flatWidth + 1\<close> after it has latched the parameters.
\<close>

theorem C5_width_invariant:
  assumes "flatWidth this < width this"
  shows "flatWidth (setCenterFreq this v) < width (setCenterFreq this v) \<and>
    flatWidth (setWidth this v) < width (setWidth this v) \<and>
    flatWidth (setFlatWidth this v) < width (setFlatWidth this v) \<and>
    flatWidth (setGain this v) < width (setGain this v) \<and>
    (v \<le> flatWidth this \<longrightarrow>
       width (setWidth this v) = flatWidth this + 1 \<and>
       flatWidth (setWidth this v) = flatWidth this) \<and>
    (width this \<le> v \<longrightarrow>
       width (setFlatWidth this v) = flatWidth (setFlatWidth this v) + 1 \<and>
       width (setFlatWidth this v) = width this) \<and>
    flatWidth (latch p params) < width (latch p params)"
  using assms
  by (auto simp: setCenterFreq_def setWidth_def setFlatWidth_def setGain_def
      updateParameters_def Let_def split: option.splits processor_node.splits)

theorem C5_width_invariant_witness:
  "flatWidth \<lparr>centerFreq = 10000, width = 5000, flatWidth = 2000, gain = 0,
      context_sampleRate = 44100, processor_node = Some ScriptNode\<rparr>
     < width \<lparr>centerFreq = 10000, width = 5000, flatWidth = 2000, gain = 0,
      context_sampleRate = 44100, processor_node = Some ScriptNode\<rparr> \<and>
   (1500::real) \<le> 2000 \<and>
   width (setWidth \<lparr>centerFreq = 10000, width = 5000, flatWidth = 2000, gain = 0,
      context_sampleRate = 44100, processor_node = Some ScriptNode\<rparr> 1500) = 2001 \<and>
   flatWidth (setWidth \<lparr>centerFreq = 10000, width = 5000, flatWidth = 2000, gain = 0,
      context_sampleRate = 44100, processor_node = Some ScriptNode\<rparr> 1500) = 2000"
  using C5_width_invariant [of "\<lparr>centerFreq = 10000, width = 5000, flatWidth = 2000, gain = 0,
      context_sampleRate = 44100, processor_node = Some ScriptNode\<rparr>" 1500]
  by simp

text \<open>
  C6. When an input block and an output block are present and the latched gain is 0,
  \<^verbatim>\<open>process\<close> returns with the output block set to zeros, whatever the input holds. No
  transform is called on this path: with the two transforms replaced by functions that
  always raise, the call returns the same result.
\<close>

theorem C6_gain_zero_bypass:
  assumes "inputs \<noteq> []" and "hd inputs \<noteq> []"
    and "outputs = (block # chans) # outs"
    and "(case param_gain params of Some v \<Rightarrow> v | None \<Rightarrow> gain this) = 0"
  shows "process sampleRate this inputs outputs params
       = Inr (latch this params, (replicate (length block) 0 # chans) # outs) \<and>
     process_with (\<lambda>x. Inl e) (\<lambda>x. Inl e') sampleRate this inputs outputs params
       = process sampleRate this inputs outputs params"
  by (simp add: process_def process_with_bypass [OF assms])

theorem C6_gain_zero_bypass_witness:
  "process 44100 constructor [[[1, 2, 3]]] [[[4, 5, 6]]]
      \<lparr>param_centerFreq = None, param_width = None, param_flatWidth = None,
       param_gain = Some 0\<rparr>
     = Inr (latch constructor \<lparr>param_centerFreq = None, param_width = None,
              param_flatWidth = None, param_gain = Some 0\<rparr>, [[[0, 0, 0]]]) \<and>
   process_with (\<lambda>x. Inl RangeError) (\<lambda>x. Inl RangeError) 44100 constructor [[[1, 2, 3]]]
      [[[4, 5, 6]]]
      \<lparr>param_centerFreq = None, param_width = None, param_flatWidth = None,
       param_gain = Some 0\<rparr>
     = Inr (latch constructor \<lparr>param_centerFreq = None, param_width = None,
              param_flatWidth = None, param_gain = Some 0\<rparr>, [[[0, 0, 0]]])"
  using C6_gain_zero_bypass [where inputs = "[[[1, 2, 3]]]" and outputs = "[[[4, 5, 6]]]"
      and block = "[4, 5, 6]" and chans = "[]" and outs = "[]" and this = constructor
      and params = "\<lparr>param_centerFreq = None, param_width = None, param_flatWidth = None,
         param_gain = Some 0\<rparr>" and sampleRate = 44100 and e = RangeError and e' = RangeError]
  by (simp add: numeral_3_eq_3)

text \<open>
  C7. Entry 0 of the mask is 0: for the worklet's generator at every size above 0, and
  for the generator of ftt.js whenever it returns a mask.
\<close>

theorem C7_dc_suppression:
  "(0 < n \<longrightarrow> createPlateauFilterMask sampleRate c w f n ! 0 = 0) \<and>
   (ftt_createPlateauFilterMask frequencies targetFreq w' delta = Inr m \<longrightarrow> m ! 0 = 0)"
  using createPlateauFilterMask_nth [of 0 n] ftt_mask_Inr by auto

theorem C7_dc_suppression_witness:
  "(0::nat) < 8 \<and> createPlateauFilterMask 8000 1000 200 100 8 ! 0 = 0 \<and>
   ftt_createPlateauFilterMask [0, 11025, 22050, - 11025] 10000 5000 2000 = Inr [0, 1, 0, 1] \<and>
   [0, 1, 0, 1 :: real] ! 0 = 0"
  using C7_dc_suppression [of 8 8000 1000 200 100 "[0, 11025, 22050, - 11025]" 10000 5000 2000
      "[0, 1, 0, 1]"] ftt_mask_example
  by simp




text \<open>
  C9. A call of \<^verbatim>\<open>process\<close> with latched gain 0 leaves the overlap buffer as it was, and
  the next call with a gain other than 0 adds that buffer, computed before the bypass, to
  its output: \<open>output[i] = processed[i] + overlapBuffer[i]\<close> with the overlap buffer of
  the state before the bypassed block.
\<close>

theorem C9_bypass_keeps_overlap:
  assumes "fftSize this = 2 ^ m" and "well_formed this"
    and "inputs1 \<noteq> []" and "hd inputs1 \<noteq> []" and "outputs1 = (block1 # chans1) # outs1"
    and "(case param_gain params1 of Some v \<Rightarrow> v | None \<Rightarrow> gain this) = 0"
    and "inputs2 \<noteq> []" and "hd inputs2 \<noteq> []" and "outputs2 = (block2 # chans2) # outs2"
    and "param_gain params2 = Some g" and "g \<noteq> 0"
    and "length block2 \<le> fftSize this"
  shows "\<exists>this1 this2 output2.
     process sampleRate this inputs1 outputs1 params1
       = Inr (this1, (replicate (length block1) 0 # chans1) # outs1) \<and>
     overlappedOutput this1 = overlappedOutput this \<and>
     process sampleRate this1 inputs2 outputs2 params2
       = Inr (this2, (output2 # chans2) # outs2) \<and>
     (\<forall>i<length block2. output2 ! i = processedOutput this2 ! i + overlappedOutput this ! i)"
proof -
  let ?t1 = "latch this params1"
  have 1: "process sampleRate this inputs1 outputs1 params1
       = Inr (?t1, (replicate (length block1) 0 # chans1) # outs1)"
    by (simp add: process_def process_with_bypass [OF assms(3-6)])
  let ?t = "latch ?t1 params2"
  let ?p = "processed_of ?t (idft (masked_of sampleRate ?t (dft (fftInput_of ?t (hd (hd inputs2))))))"
  obtain output2 overlapped where
    oa: "overlap_add ?p (fftSize this) (block2, overlappedOutput this) = (output2, overlapped)"
    by (cases "overlap_add ?p (fftSize this) (block2, overlappedOutput this)")
  have "process sampleRate ?t1 inputs2 outputs2 params2
      = Inr (?t\<lparr>processedOutput := ?p, overlappedOutput := overlapped\<rparr>,
             (output2 # chans2) # outs2)"
    using assms(1,10,11) oa
    by (simp add: process_pipeline [OF assms(7-9), where m = m] Let_def)
  with 1 overlap_add_props(3) [OF oa] show ?thesis by auto
qed

text \<open>
  A stream on which the stale tail shows: the block of the test scenario, then a block
  with gain 0, then a block of silence with gain 1. Sample 124 of the third output block is
  the overlap value \<open>hanning 64 * hanning 252 / 1024\<close> that the first block left, and is
  not 0, although the third block's own contribution is 0.
\<close>

theorem C9_bypass_keeps_overlap_witness:
  "\<exists>this1 this2 output2.
     process 44100 impulse_state [[impulse_block]] [[replicate 128 0]] bypass_params
       = Inr (this1, [[replicate 128 0]]) \<and>
     overlappedOutput this1 = overlappedOutput impulse_state \<and>
     process 44100 this1 [[replicate 128 0]] [[replicate 128 0]] narrow_params
       = Inr (this2, [[output2]]) \<and>
     output2 ! 124 = processedOutput this2 ! 124 + overlappedOutput impulse_state ! 124 \<and>
     processedOutput this2 ! 124 = 0 \<and>
     overlappedOutput impulse_state ! 124 = hanning 64 * hanning 252 / 1024 \<and>
     output2 ! 124 \<noteq> 0"
proof -
  from C9_bypass_keeps_overlap [where this = impulse_state and m = 11
      and ?inputs1.0 = "[[impulse_block]]" and ?outputs1.0 = "[[replicate 128 0]]"
      and ?block1.0 = "replicate 128 0" and ?chans1.0 = "[]" and ?outs1.0 = "[]"
      and ?params1.0 = bypass_params
      and ?inputs2.0 = "[[replicate 128 0]]" and ?outputs2.0 = "[[replicate 128 0]]"
      and ?block2.0 = "replicate 128 0" and ?chans2.0 = "[]" and ?outs2.0 = "[]"
      and ?params2.0 = narrow_params and g = 1 and sampleRate = 44100]
  obtain this1 this2 output2 where
    a: "process 44100 impulse_state [[impulse_block]] [[replicate 128 0]] bypass_params
       = Inr (this1, [[replicate 128 0]])"
    and b: "overlappedOutput this1 = overlappedOutput impulse_state"
    and c: "process 44100 this1 [[replicate 128 0]] [[replicate 128 0]] narrow_params
       = Inr (this2, [[output2]])"
    and d: "\<forall>i<128. output2 ! i = processedOutput this2 ! i + overlappedOutput impulse_state ! i"
    by (auto simp: impulse_run(2) well_formed_impulse_state bypass_params_def narrow_params_def)
  have "process 44100 impulse_state [[impulse_block]] [[replicate 128 0]] bypass_params
       = Inr (latch impulse_state bypass_params, [[replicate 128 0]])"
    by (simp add: process_def process_with_bypass [where block = "replicate 128 0"]
        bypass_params_def)
  with a have t1: "this1 = latch impulse_state bypass_params" by simp
  let ?t = "latch this1 narrow_params"
  have z: "processed_of ?t (idft (masked_of 44100 ?t (dft (fftInput_of ?t (replicate 128 0)))))
      = replicate 2048 0"
    using masked_of_zero [of 44100 ?t] processed_of_zero [of ?t]
    by (simp add: fftInput_of_silence dft_zero idft_zero t1 impulse_run(2))
  have "processedOutput this2 = replicate 2048 0"
    using c
    by (simp add: process_pipeline [where m = 11 and block = "replicate 128 0" and chans = "[]"
          and outs = "[]"] Let_def narrow_params_def t1 impulse_run(2) z [simplified t1 narrow_params_def]
        split: prod.splits)
       auto
  then have p: "processedOutput this2 ! 124 = 0" by simp
  from d have "output2 ! 124 = processedOutput this2 ! 124 + overlappedOutput impulse_state ! 124"
    by simp
  with a b c p impulse_overlap_124 show ?thesis
    by (intro exI [of _ this1] exI [of _ this2] exI [of _ output2]) simp
qed

text \<open>
  C10. \<^verbatim>\<open>applyFFTFilter\<close> does not return on every input: on four samples at a sample
  rate of 8000 Hz the diagnostic output of \<^verbatim>\<open>createPlateauFilterMask\<close> reads the mask at
  index \<open>round(15000 / 2000) = 8\<close>, which is \<^verbatim>\<open>undefined\<close>, and the call of \<^verbatim>\<open>toFixed\<close> on
  it raises \<^verbatim>\<open>TypeError\<close>.
\<close>

theorem C10_applyFFTFilter_raises:
  "applyFFTFilter [1, 2, 3, 4] 8000 1000 200 100 = Inl TypeError"
proof -
  have "Math_round (15000 / 2000) = 8" by (rule Math_round_eq; simp)
  then have m: "ftt_createPlateauFilterMask [0, 2000, 4000, - 2000] 1000 200 100 = Inl TypeError"
    by (simp add: ftt_createPlateauFilterMask_def Let_def is_index_def)
  have len: "length [1, 2, 3, 4 :: real] = 4" by simp
  show ?thesis
    unfolding applyFFTFilter_def Let_def len paddedLength_of_4 createFrequencyArray_4 m
    by simp
qed

text \<open>When \<^verbatim>\<open>applyFFTFilter\<close> does return, its result is as C10 says: it has the length
  of the input and every sample is at most 1 in absolute value (lemma
  \<open>applyFFTFilter_Inr\<close>).\<close>

end
